theory Spec2Isabelle
  imports Complex_Main
begin

section \<open>The engine bridge of the JavaScript client (\<open>internals/client.ts\<close>)\<close>

text \<open>
  The function \<open>start\<close> of \<open>client.ts\<close> builds one mutable \<open>state\<close> object and returns a
  client whose methods (\<open>addChain\<close>, \<open>terminate\<close>, and per chain \<open>sendJsonRpc\<close>,
  \<open>nextJsonRpcResponse\<close>, \<open>remove\<close>) and whose \<open>eventCallback\<close> all read and write that
  object.  JavaScript runs them on one thread: a piece of code runs from a call, or from the
  resumption of an \<open>await\<close>, up to the next \<open>await\<close> without interruption.  The model
  therefore has one HOL function per such piece, passing the state explicitly.  A promise
  resolver stored in the state is modelled by the description of the continuation that
  calling it schedules; scheduled continuations wait in the job (microtask) queue.
\<close>

subsection \<open>Values, errors, and numbers\<close>

type_synonym chain_id = nat
type_synonym conn_id = nat
type_synonym task = nat \<comment> \<open>identity of one pending asynchronous call (its promise)\<close>
type_synonym obj = nat \<comment> \<open>identity of a JavaScript object\<close>

text \<open>The error classes of \<open>public-types\<close>, the plain \<open>Error(message)\<close>, and the
  \<open>TypeError\<close> that JavaScript raises when \<open>undefined\<close> is called or dereferenced.\<close>

datatype error =
    AlreadyDestroyedError
  | CrashError string
  | AddChainError string
  | JsonRpcDisabledError
  | QueueFullError
  | Error string
  | TypeError

text \<open>A JavaScript \<open>number\<close>.  Only \<open>Math.floor\<close>, \<open>isNaN\<close> and comparisons with integer
  constants are applied to it, and these are exact on the finite values, so a finite value
  is kept as the rational it denotes.\<close>

datatype number = NaN | Infinity | NegInfinity | Finite rat

fun math_floor :: "number \<Rightarrow> number" where
  "math_floor (Finite q) = Finite (of_int \<lfloor>q\<rfloor>)"
| "math_floor n = n"

fun isNaN :: "number \<Rightarrow> bool" where
  "isNaN NaN = True"
| "isNaN _ = False"

text \<open>\<open>a <= b\<close>, \<open>a < b\<close> and \<open>a > b\<close> for a number \<open>a\<close> and a finite constant \<open>b\<close>;
  every comparison with \<open>NaN\<close> is false.\<close>

fun num_le :: "number \<Rightarrow> rat \<Rightarrow> bool" where
  "num_le NaN b = False"
| "num_le Infinity b = False"
| "num_le NegInfinity b = True"
| "num_le (Finite a) b = (a \<le> b)"

fun num_lt :: "number \<Rightarrow> rat \<Rightarrow> bool" where
  "num_lt NaN b = False"
| "num_lt Infinity b = False"
| "num_lt NegInfinity b = True"
| "num_lt (Finite a) b = (a < b)"

fun num_gt :: "number \<Rightarrow> rat \<Rightarrow> bool" where
  "num_gt NaN b = False"
| "num_gt Infinity b = True"
| "num_gt NegInfinity b = False"
| "num_gt (Finite a) b = (a > b)"

text \<open>The values a caller can put where \<open>AddChainOptions\<close> declares a string.\<close>

datatype jsval = JUndefined | JNull | JBool bool | JNumber number | JString string | JObject

fun is_string :: "jsval \<Rightarrow> bool" where
  "is_string (JString s) = True"
| "is_string _ = False"

fun the_string :: "jsval \<Rightarrow> string" where
  "the_string (JString s) = s"
| "the_string _ = []"

text \<open>\<open>!!v\<close> for an optional boolean.\<close>

fun truthy :: "bool option \<Rightarrow> bool" where
  "truthy (Some b) = b"
| "truthy None = False"

record add_chain_options =
  chainSpec :: jsval
  databaseContent :: jsval
  potentialRelayChains :: "obj list option"
  disableJsonRpc :: "bool option"
  jsonRpcMaxPendingRequests :: "number option"
  jsonRpcMaxSubscriptions :: "number option"

text \<open>The object that \<open>addChain\<close> returns: its identity, and the variables \<open>chainId\<close> and
  \<open>options\<close> that its three methods close over.\<close>

record chain_handle =
  self :: obj
  chainId :: chain_id
  options :: add_chain_options

subsection \<open>The state\<close>

datatype outcome = Success chain_id | Failure string

datatype instance_status = NotCreated | NotReady | Ready | Destroyed error

text \<open>What can wait in the job queue: the rest of an asynchronous call after the \<open>await\<close>
  it is suspended at.\<close>

datatype job =
    AddChainAfterReady task add_chain_options "error option"
  | AddChainAfterOutcome task add_chain_options outcome
  | NextAfterWake task chain_handle
  | TerminateAfterReady task "error option"
  | TerminateAfterShutdown task

text \<open>The promise \<open>whenReady\<close>: pending with the calls that await it (in the order
  they began to wait), or settled.\<close>

datatype ready_waiter = AddChainWaits task add_chain_options | TerminateWaits task

datatype ready_promise =
    Pending "ready_waiter list"
  | Fulfilled
  | Rejected error

datatype settled =
    Throws error
  | ReturnsChain chain_handle
  | ReturnsMessage string
  | ReturnsVoid

text \<open>What the bridge does to the outside: commands to the engine instance, calls to the
  platform's connections, console output, and the settling of a caller's promise.\<close>

datatype effect =
    InstanceAddChain string string "chain_id list" bool number number
  | InstanceRemoveChain chain_id
  | InstanceRequest string chain_id
  | InstanceShutdownExecutor
  | InstanceConnectionReset conn_id string
  | ConnectionReset_call obj "nat option"
  | ConnectionOpenOutSubstream obj
  | ConnectionSend obj "nat list" "nat option"
  | ConnectionCloseSend obj "nat option"
  | LogCallback nat string string
  | ConsoleError string
  | ConsoleAssertFailed
  | Settled task settled

record state =
  "instance" :: instance_status
  whenReady :: ready_promise
  chainIds :: "obj \<rightharpoonup> chain_id"
  connections :: "(conn_id \<times> obj) list"
  addChainResults :: "(task \<times> add_chain_options) list"
  onExecutorShutdownOrWasmPanic :: "task option"
  chains :: "(chain_id \<times> (task \<times> chain_handle) list) list"
  jobs :: "job list"
  effects :: "effect list"
  objects :: nat
  responses :: "chain_id \<Rightarrow> string list"

text \<open>
  The first seven fields are the fields of the source's \<open>state\<close> object
  (\<open>whenReady\<close> is a field of \<open>state.instance\<close> there).  \<open>chainIds\<close> is the
  \<open>WeakMap\<close>; \<open>connections\<close> and \<open>chains\<close> are \<open>Map\<close>s, kept in insertion order
  because the source iterates over them.  An entry of \<open>addChainResults\<close> stands for the
  \<open>resolve\<close> function of the promise that the \<open>addChain\<close> call \<open>(task, options)\<close> awaits,
  an entry of a chain's \<open>jsonRpcResponsesPromises\<close> for the \<open>resolve\<close> function that a
  \<open>nextJsonRpcResponse\<close> call awaits, and \<open>onExecutorShutdownOrWasmPanic\<close> is \<open>None\<close>
  for the empty function and \<open>Some t\<close> for the \<open>resolve\<close> function of \<open>terminate\<close> call
  \<open>t\<close>.  No path of the source calls such a function twice (it is removed from the state
  before or right after it is called), so calling it always schedules the continuation.

  The last four fields are the surroundings: the job queue of the JavaScript engine, the
  effects performed so far, the number of chain objects allocated so far, and the response
  queues of the engine instance.
\<close>

subsection \<open>\<open>Map\<close> operations\<close>

fun map_has :: "('k \<times> 'v) list \<Rightarrow> 'k \<Rightarrow> bool" where
  "map_has [] k = False"
| "map_has ((k', v) # m) k = (k' = k \<or> map_has m k)"

fun map_get :: "('k \<times> 'v) list \<Rightarrow> 'k \<Rightarrow> 'v option" where
  "map_get [] k = None"
| "map_get ((k', v) # m) k = (if k' = k then Some v else map_get m k)"

text \<open>\<open>Map.set\<close> keeps the position of a key that is present and appends a new one.\<close>

fun map_set :: "('k \<times> 'v) list \<Rightarrow> 'k \<Rightarrow> 'v \<Rightarrow> ('k \<times> 'v) list" where
  "map_set [] k v = [(k, v)]"
| "map_set ((k', v') # m) k v = (if k' = k then (k, v) # m else (k', v') # map_set m k v)"

fun map_delete :: "('k \<times> 'v) list \<Rightarrow> 'k \<Rightarrow> ('k \<times> 'v) list" where
  "map_delete [] k = []"
| "map_delete ((k', v) # m) k = (if k' = k then map_delete m k else (k', v) # map_delete m k)"

definition perform :: "effect list \<Rightarrow> state \<Rightarrow> state" where
  "perform es st = st\<lparr>effects := effects st @ es\<rparr>"

definition schedule :: "job list \<Rightarrow> state \<Rightarrow> state" where
  "schedule js st = st\<lparr>jobs := jobs st @ js\<rparr>"

definition settle :: "task \<Rightarrow> settled \<Rightarrow> state \<Rightarrow> state" where
  "settle t r st = perform [Settled t r] st"

subsection \<open>\<open>addChain\<close>\<close>

text \<open>Lines 470 to 480: the loop over \<open>options.potentialRelayChains\<close>, looking each
  chain object up in the \<open>WeakMap\<close>.\<close>

fun relayChainsLoop :: "(obj \<rightharpoonup> chain_id) \<Rightarrow> obj list \<Rightarrow> chain_id list" where
  "relayChainsLoop ids [] = []"
| "relayChainsLoop ids (chain # rest) =
     (case ids chain of
        None \<Rightarrow> relayChainsLoop ids rest
      | Some i \<Rightarrow> i # relayChainsLoop ids rest)"

definition potentialRelayChainsIds :: "state \<Rightarrow> add_chain_options \<Rightarrow> chain_id list" where
  "potentialRelayChainsIds st opts =
     (case potentialRelayChains opts of
        None \<Rightarrow> []
      | Some cs \<Rightarrow> relayChainsLoop (chainIds st) cs)"

text \<open>Lines 482 to 490.\<close>

definition sanitizeMaxPendingRequests :: "number option \<Rightarrow> error + number" where
  "sanitizeMaxPendingRequests v =
     (let n = math_floor (case v of None \<Rightarrow> Infinity | Some x \<Rightarrow> x) in
      if num_le n 0 \<or> isNaN n
      then Inl (AddChainError ''Invalid value for `jsonRpcMaxPendingRequests`'')
      else Inr (if num_gt n 4294967295 then Finite 4294967295 else n))"

text \<open>Lines 492 to 500.\<close>

definition sanitizeMaxSubscriptions :: "number option \<Rightarrow> error + number" where
  "sanitizeMaxSubscriptions v =
     (let n = math_floor (case v of None \<Rightarrow> Infinity | Some x \<Rightarrow> x) in
      if num_lt n 0 \<or> isNaN n
      then Inl (AddChainError ''Invalid value for `jsonRpcMaxSubscriptions`'')
      else Inr (if num_gt n 4294967295 then Finite 4294967295 else n))"

text \<open>Lines 459 to 515: from the status checks to the command.  A \<open>throw\<close> happens before
  the state is touched, so the result is either the error or the new state.  In
  \<open>options.databaseContent || ""\<close> the left side is a string or undefined at that point,
  which is what \<open>the_string\<close> computes.\<close>

definition addChain_body :: "state \<Rightarrow> task \<Rightarrow> add_chain_options \<Rightarrow> error + state" where
  "addChain_body st t opts =
     (case instance st of
        Destroyed e \<Rightarrow> Inl e
      | NotCreated \<Rightarrow> Inl (Error [])
      | NotReady \<Rightarrow> Inl (Error [])
      | Ready \<Rightarrow>
          if \<not> is_string (chainSpec opts)
          then Inl (Error ''Chain specification must be a string'')
          else
            (case sanitizeMaxPendingRequests (jsonRpcMaxPendingRequests opts) of
               Inl e \<Rightarrow> Inl e
             | Inr maxPending \<Rightarrow>
                 (case sanitizeMaxSubscriptions (jsonRpcMaxSubscriptions opts) of
                    Inl e \<Rightarrow> Inl e
                  | Inr maxSubs \<Rightarrow>
                      if databaseContent opts \<noteq> JUndefined \<and> \<not> is_string (databaseContent opts)
                      then Inl (AddChainError ''`databaseContent` is not a string'')
                      else Inr (perform
                        [InstanceAddChain (the_string (chainSpec opts))
                           (the_string (databaseContent opts))
                           (potentialRelayChainsIds st opts)
                           (truthy (disableJsonRpc opts)) maxPending maxSubs]
                        (st\<lparr>addChainResults := addChainResults st @ [(t, opts)]\<rparr>)))))"

text \<open>Lines 459 to 517 as part of the asynchronous function: an error rejects the call's
  promise, otherwise the call is suspended at \<open>await promise\<close>.\<close>

definition addChain_from_ready :: "state \<Rightarrow> task \<Rightarrow> add_chain_options \<Rightarrow> state" where
  "addChain_from_ready st t opts =
     (case addChain_body st t opts of
        Inl e \<Rightarrow> settle t (Throws e) st
      | Inr st' \<Rightarrow> st')"

fun resume_ready :: "error option \<Rightarrow> ready_waiter \<Rightarrow> job" where
  "resume_ready r (AddChainWaits t opts) = AddChainAfterReady t opts r"
| "resume_ready r (TerminateWaits t) = TerminateAfterReady t r"

text \<open>\<open>await state.instance.whenReady\<close>.\<close>

definition await_ready :: "ready_waiter \<Rightarrow> state \<Rightarrow> state" where
  "await_ready w st =
     (case whenReady st of
        Pending ws \<Rightarrow> st\<lparr>whenReady := Pending (ws @ [w])\<rparr>
      | Fulfilled \<Rightarrow> schedule [resume_ready None w] st
      | Rejected e \<Rightarrow> schedule [resume_ready (Some e) w] st)"

text \<open>The call \<open>addChain(options)\<close>, lines 456 to 458 and on.\<close>

definition addChain :: "state \<Rightarrow> task \<Rightarrow> add_chain_options \<Rightarrow> state" where
  "addChain st t opts =
     (if instance st = NotReady then await_ready (AddChainWaits t opts) st
      else addChain_from_ready st t opts)"

text \<open>Lines 517 to 585: the call resumes with the outcome it awaited.\<close>

definition addChain_resume :: "state \<Rightarrow> task \<Rightarrow> add_chain_options \<Rightarrow> outcome \<Rightarrow> state" where
  "addChain_resume st t opts out =
     (case out of
        Failure msg \<Rightarrow> settle t (Throws (AddChainError msg)) st
      | Success cid \<Rightarrow>
          (let newChain = \<lparr>self = objects st, chainId = cid, options = opts\<rparr> in
           settle t (ReturnsChain newChain)
             (st\<lparr>chains := map_set (chains st) cid [],
                 chainIds := (chainIds st)(objects st \<mapsto> cid),
                 objects := Suc (objects st)\<rparr>)))"

subsection \<open>The methods of a chain\<close>

text \<open>The decimal digits of a number, for \<open>"..." + retVal\<close>.\<close>

fun string_of_nat :: "nat \<Rightarrow> string" where
  "string_of_nat n =
     (if n < 10 then [char_of (48 + n)]
      else string_of_nat (n div 10) @ [char_of (48 + n mod 10)])"

declare string_of_nat.simps [simp del]

text \<open>Lines 528 to 544.  \<open>retVal\<close> is what the instance's \<open>request\<close> returns; the request
  has been handed to the instance also when the call then throws.\<close>

definition sendJsonRpc :: "state \<Rightarrow> chain_handle \<Rightarrow> string \<Rightarrow> nat \<Rightarrow> error option \<times> state" where
  "sendJsonRpc st h request retVal =
     (case instance st of
        Destroyed e \<Rightarrow> (Some e, st)
      | NotCreated \<Rightarrow> (Some (Error []), st)
      | NotReady \<Rightarrow> (Some (Error []), st)
      | Ready \<Rightarrow>
          if \<not> map_has (chains st) (chainId h) then (Some AlreadyDestroyedError, st)
          else if truthy (disableJsonRpc (options h)) then (Some JsonRpcDisabledError, st)
          else
            (let st' = perform [InstanceRequest request (chainId h)] st in
             if retVal = 0 then (None, st')
             else if retVal = 1 then (Some QueueFullError, st')
             else (Some (Error (''Internal error: unknown json_rpc_send error code: ''
                      @ string_of_nat retVal)), st')))"

text \<open>Modelled from the spec: \<open>peekJsonRpcResponse\<close> of the instance (\<open>local-instance\<close> is
  not part of the sources at hand) is a non-blocking pop of the engine's response queue of
  the chain: the oldest queued response, which is removed, or nothing.\<close>

definition peekJsonRpcResponse :: "state \<Rightarrow> chain_id \<Rightarrow> string option \<times> state" where
  "peekJsonRpcResponse st cid =
     (case responses st cid of
        [] \<Rightarrow> (None, st)
      | m # ms \<Rightarrow> (Some m, st\<lparr>responses := (responses st)(cid := ms)\<rparr>))"

text \<open>Lines 562 to 564: the call suspends, its \<open>resolve\<close> function pushed to the list of
  its chain.\<close>

definition await_wake :: "state \<Rightarrow> task \<Rightarrow> chain_handle \<Rightarrow> state" where
  "await_wake st t h =
     (case map_get (chains st) (chainId h) of
        None \<Rightarrow> settle t (Throws TypeError) st
      | Some ws \<Rightarrow> st\<lparr>chains := map_set (chains st) (chainId h) (ws @ [(t, h)])\<rparr>)"

text \<open>Lines 545 to 566: one pass through the body of the \<open>while (true)\<close> loop, which is
  what runs when \<open>nextJsonRpcResponse\<close> is called and again each time the call is woken.
  A pass ends by settling the call or by suspending it at the \<open>await\<close>, its \<open>resolve\<close>
  function pushed to the chain's list.  \<open>if (message)\<close> is false for no message and for
  the empty string.\<close>

definition nextJsonRpcResponse :: "state \<Rightarrow> task \<Rightarrow> chain_handle \<Rightarrow> state" where
  "nextJsonRpcResponse st t h =
     (if \<not> map_has (chains st) (chainId h) then settle t (Throws AlreadyDestroyedError) st
      else if truthy (disableJsonRpc (options h)) then settle t (Throws JsonRpcDisabledError) st
      else
        (case instance st of
           Destroyed e \<Rightarrow> settle t (Throws e) st
         | NotCreated \<Rightarrow> settle t (Throws (Error [])) st
         | NotReady \<Rightarrow> settle t (Throws (Error [])) st
         | Ready \<Rightarrow>
             (case peekJsonRpcResponse st (chainId h) of
                (Some (c # cs), st') \<Rightarrow> settle t (ReturnsMessage (c # cs)) st'
              | (_, st') \<Rightarrow> await_wake st' t h)))"

text \<open>Calling the \<open>resolve\<close> functions in a chain's list.\<close>

definition wake :: "(task \<times> chain_handle) list \<Rightarrow> job list" where
  "wake ws = map (\<lambda>(t, h). NextAfterWake t h) ws"

text \<open>Lines 567 to 581.  \<open>console.assert\<close> neither throws nor changes the state: it
  prints to the console when the asserted \<open>state.chainIds.has(newChain)\<close> is false.\<close>

definition remove :: "state \<Rightarrow> chain_handle \<Rightarrow> error + state" where
  "remove st h =
     (case instance st of
        Destroyed e \<Rightarrow> Inl e
      | NotCreated \<Rightarrow> Inl (Error [])
      | NotReady \<Rightarrow> Inl (Error [])
      | Ready \<Rightarrow>
          (case map_get (chains st) (chainId h) of
             None \<Rightarrow> Inl AlreadyDestroyedError
           | Some ws \<Rightarrow>
               Inr (perform
                 ((if chainIds st (self h) = None then [ConsoleAssertFailed] else [])
                    @ [InstanceRemoveChain (chainId h)])
                 (schedule (wake ws)
                   (st\<lparr>chainIds := (chainIds st)(self h := None),
                       chains := map_delete (chains st) (chainId h)\<rparr>)))))"

subsection \<open>Leaving the live states\<close>

text \<open>The three loops that the crash event and the end of \<open>terminate\<close> both run:
  resetting and forgetting every connection, failing every pending \<open>addChain\<close>, and waking
  and forgetting every waiter of every chain.\<close>

definition reset_connections :: "state \<Rightarrow> state" where
  "reset_connections st =
     perform (map (\<lambda>(i, connec). ConnectionReset_call connec None) (connections st))
       (st\<lparr>connections := []\<rparr>)"

definition fail_addChainResults :: "string \<Rightarrow> state \<Rightarrow> state" where
  "fail_addChainResults msg st =
     schedule (map (\<lambda>(t, opts). AddChainAfterOutcome t opts (Failure msg)) (addChainResults st))
       (st\<lparr>addChainResults := []\<rparr>)"

definition wake_chains :: "state \<Rightarrow> state" where
  "wake_chains st =
     schedule (concat (map (\<lambda>(cid, ws). wake ws) (chains st))) (st\<lparr>chains := []\<rparr>)"

text \<open>Taking \<open>state.onExecutorShutdownOrWasmPanic\<close>, putting the empty function in its
  place, and calling what was taken.\<close>

definition call_onExecutorShutdownOrWasmPanic :: "state \<Rightarrow> state" where
  "call_onExecutorShutdownOrWasmPanic st =
     (case onExecutorShutdownOrWasmPanic st of
        None \<Rightarrow> st
      | Some t \<Rightarrow> schedule [TerminateAfterShutdown t] (st\<lparr>onExecutorShutdownOrWasmPanic := None\<rparr>))"

subsection \<open>\<open>terminate\<close>\<close>

text \<open>Lines 590 to 597, up to the \<open>await\<close>.\<close>

definition terminate_body :: "state \<Rightarrow> task \<Rightarrow> error + state" where
  "terminate_body st t =
     (case instance st of
        Destroyed e \<Rightarrow> Inl e
      | NotCreated \<Rightarrow> Inl (Error [])
      | NotReady \<Rightarrow> Inl (Error [])
      | Ready \<Rightarrow>
          Inr ((perform [InstanceShutdownExecutor] st)\<lparr>onExecutorShutdownOrWasmPanic := Some t\<rparr>))"

definition terminate_from_ready :: "state \<Rightarrow> task \<Rightarrow> state" where
  "terminate_from_ready st t =
     (case terminate_body st t of
        Inl e \<Rightarrow> settle t (Throws e) st
      | Inr st' \<Rightarrow> st')"

definition terminate :: "state \<Rightarrow> task \<Rightarrow> state" where
  "terminate st t =
     (if instance st = NotReady then await_ready (TerminateWaits t) st
      else terminate_from_ready st t)"

text \<open>Lines 599 to 616: the call resumes after the \<open>executor-shutdown\<close> or
  \<open>wasm-panic\<close> event.\<close>

definition terminate_resume :: "state \<Rightarrow> task \<Rightarrow> state" where
  "terminate_resume st t =
     settle t ReturnsVoid
       (wake_chains
         (fail_addChainResults ''Client.terminate() has been called''
           (reset_connections
             (if instance st = Ready then st\<lparr>instance := Destroyed AlreadyDestroyedError\<rparr>
              else st))))"

subsection \<open>\<open>eventCallback\<close>\<close>

text \<open>The events of the instance.  \<open>NewConnection\<close> also carries the connection object
  that \<open>platformBindings.connect\<close> returns for it.\<close>

datatype event =
    WasmPanic string "string option"
  | ExecutorShutdown
  | Log nat string string
  | AddChainResult outcome
  | JsonRpcResponsesNonEmpty chain_id
  | NewConnection conn_id obj
  | ConnectionReset conn_id
  | ConnectionStreamOpen conn_id
  | ConnectionStreamReset conn_id nat
  | StreamSend conn_id "nat list" "nat option"
  | StreamSendClose conn_id "nat option"

text \<open>Lines 275 to 281: the text printed for a panic.\<close>

definition panic_text :: "string \<Rightarrow> string option \<Rightarrow> string" where
  "panic_text message currentTask =
     ''Smoldot has panicked''
     @ (case currentTask of
          None \<Rightarrow> []
        | Some name \<Rightarrow> if name = [] then [] else '' while executing task `'' @ name @ ''`'')
     @ ''. This is a bug in smoldot. Please open an issue at ''
     @ ''https://github.com/smol-dot/smoldot/issues with the following message:''
     @ [CHR 0x0A] @ message"

text \<open>A command for one connection, lines 369 to 394: the connection is looked up first,
  and calling a method of \<open>undefined\<close> throws.\<close>

definition on_connection :: "state \<Rightarrow> conn_id \<Rightarrow> (obj \<Rightarrow> state \<Rightarrow> state) \<Rightarrow> error + state" where
  "on_connection st i f =
     (case map_get (connections st) i of
        None \<Rightarrow> Inl TypeError
      | Some connection \<Rightarrow> Inr (f connection st))"

text \<open>Lines 272 to 396.  Where a case throws, it does so before it changes the state.\<close>

fun eventCallback :: "state \<Rightarrow> event \<Rightarrow> error + state" where
  "eventCallback st (WasmPanic message currentTask) =
     Inr (call_onExecutorShutdownOrWasmPanic
       (wake_chains
         (fail_addChainResults ''Smoldot has crashed''
           (reset_connections
             ((perform [ConsoleError (panic_text message currentTask)] st)
                \<lparr>instance := Destroyed (CrashError message)\<rparr>)))))"
| "eventCallback st ExecutorShutdown = Inr (call_onExecutorShutdownOrWasmPanic st)"
| "eventCallback st (Log level target message) =
     Inr (perform [LogCallback level target message] st)"
| "eventCallback st (AddChainResult out) =
     (case addChainResults st of
        [] \<Rightarrow> Inl TypeError
      | (t, opts) # rest \<Rightarrow>
          Inr (schedule [AddChainAfterOutcome t opts out] (st\<lparr>addChainResults := rest\<rparr>)))"
| "eventCallback st (JsonRpcResponsesNonEmpty cid) =
     (case map_get (chains st) cid of
        None \<Rightarrow> Inl TypeError
      | Some callbacks \<Rightarrow>
          Inr (schedule (wake callbacks) (st\<lparr>chains := map_set (chains st) cid []\<rparr>)))"
| "eventCallback st (NewConnection i connection) =
     Inr (st\<lparr>connections := map_set (connections st) i connection\<rparr>)"
| "eventCallback st (ConnectionReset i) =
     on_connection st i (\<lambda>connection st.
       perform [ConnectionReset_call connection None]
         (st\<lparr>connections := map_delete (connections st) i\<rparr>))"
| "eventCallback st (ConnectionStreamOpen i) =
     on_connection st i (\<lambda>connection. perform [ConnectionOpenOutSubstream connection])"
| "eventCallback st (ConnectionStreamReset i streamId) =
     on_connection st i (\<lambda>connection. perform [ConnectionReset_call connection (Some streamId)])"
| "eventCallback st (StreamSend i data streamId) =
     on_connection st i (\<lambda>connection. perform [ConnectionSend connection data streamId])"
| "eventCallback st (StreamSendClose i streamId) =
     on_connection st i (\<lambda>connection. perform [ConnectionCloseSend connection streamId])"

text \<open>Lines 335 to 340: the callback \<open>onConnectionReset\<close> given to the platform for
  connection \<open>i\<close>.  The other callbacks given to the platform only pass their arguments on
  to the instance, after the same check of the status.\<close>

definition onConnectionReset :: "state \<Rightarrow> conn_id \<Rightarrow> string \<Rightarrow> error + state" where
  "onConnectionReset st i message =
     (if instance st \<noteq> Ready then Inl (Error [])
      else Inr (perform [InstanceConnectionReset i message]
        (st\<lparr>connections := map_delete (connections st) i\<rparr>)))"

subsection \<open>The start of the instance\<close>

text \<open>Lines 239 to 269 and 398 to 453: the state when \<open>start\<close> returns.\<close>

definition start :: state where
  "start =
     \<lparr>instance = NotReady, whenReady = Pending [], chainIds = Map.empty, connections = [],
      addChainResults = [], onExecutorShutdownOrWasmPanic = None, chains = [],
      jobs = [], effects = [], objects = 0, responses = (\<lambda>cid. [])\<rparr>"

text \<open>The promise \<open>whenReady\<close> settles: its waiters are scheduled in the order in which
  they began to wait.\<close>

definition settle_whenReady :: "error option \<Rightarrow> state \<Rightarrow> state" where
  "settle_whenReady r st =
     (case whenReady st of
        Pending ws \<Rightarrow>
          schedule (map (resume_ready r) ws)
            (st\<lparr>whenReady := (case r of None \<Rightarrow> Fulfilled | Some e \<Rightarrow> Rejected e)\<rparr>)
      | _ \<Rightarrow> st)"

text \<open>Lines 418 to 426 (and 443 to 451): the instance has been built.\<close>

definition instance_started :: "state \<Rightarrow> state" where
  "instance_started st =
     settle_whenReady None
       (case instance st of
          Destroyed e \<Rightarrow> st
        | _ \<Rightarrow> st\<lparr>instance := Ready\<rparr>)"

subsection \<open>Executions\<close>

text \<open>A scheduled continuation runs.\<close>

fun run_job :: "state \<Rightarrow> job \<Rightarrow> state" where
  "run_job st (AddChainAfterReady t opts None) = addChain_from_ready st t opts"
| "run_job st (AddChainAfterReady t opts (Some e)) = settle t (Throws e) st"
| "run_job st (AddChainAfterOutcome t opts out) = addChain_resume st t opts out"
| "run_job st (NextAfterWake t h) = nextJsonRpcResponse st t h"
| "run_job st (TerminateAfterReady t None) = terminate_from_ready st t"
| "run_job st (TerminateAfterReady t (Some e)) = settle t (Throws e) st"
| "run_job st (TerminateAfterShutdown t) = terminate_resume st t"

text \<open>A chain object that some \<open>addChain\<close> call has returned: only on such an object can
  a caller invoke the chain methods.\<close>

fun returns_chain :: "chain_handle \<Rightarrow> effect \<Rightarrow> bool" where
  "returns_chain h (Settled t (ReturnsChain h')) = (h' = h)"
| "returns_chain h _ = False"

definition returned :: "state \<Rightarrow> chain_handle \<Rightarrow> bool" where
  "returned st h = list_ex (returns_chain h) (effects st)"

text \<open>
  Everything that can happen to the state: a caller invokes a method of the client or of a
  chain object it holds, the instance delivers an event or finishes (or fails) to start,
  the platform reports a connection reset, the JavaScript engine runs the next scheduled
  continuation, or the engine instance queues a JSON-RPC response.  An exception of a
  synchronous call goes to its caller; in all these places it is thrown before the state
  is changed, except in \<open>sendJsonRpc\<close>, whose state after the call is kept.
\<close>

datatype action =
    CallAddChain task add_chain_options
  | CallTerminate task
  | CallSendJsonRpc chain_handle string nat
  | CallNextJsonRpcResponse task chain_handle
  | CallRemove chain_handle
  | Emit event
  | PlatformConnectionReset conn_id string
  | InstanceStarted
  | InstanceFailed error
  | RunJob
  | QueueResponse chain_id string

fun keep :: "state \<Rightarrow> error + state \<Rightarrow> state" where
  "keep st (Inl e) = st"
| "keep st (Inr st') = st'"

fun step :: "state \<Rightarrow> action \<Rightarrow> state" where
  "step st (CallAddChain t opts) = addChain st t opts"
| "step st (CallTerminate t) = terminate st t"
| "step st (CallSendJsonRpc h request retVal) =
     (if returned st h then snd (sendJsonRpc st h request retVal) else st)"
| "step st (CallNextJsonRpcResponse t h) =
     (if returned st h then nextJsonRpcResponse st t h else st)"
| "step st (CallRemove h) = (if returned st h then keep st (remove st h) else st)"
| "step st (Emit ev) = keep st (eventCallback st ev)"
| "step st (PlatformConnectionReset i message) = keep st (onConnectionReset st i message)"
| "step st InstanceStarted =
     (case whenReady st of Pending ws \<Rightarrow> instance_started st | _ \<Rightarrow> st)"
| "step st (InstanceFailed e) = settle_whenReady (Some e) st"
| "step st RunJob = (case jobs st of [] \<Rightarrow> st | j # js \<Rightarrow> run_job (st\<lparr>jobs := js\<rparr>) j)"
| "step st (QueueResponse cid m) = st\<lparr>responses := (responses st)(cid := responses st cid @ [m])\<rparr>"

fun run :: "state \<Rightarrow> action list \<Rightarrow> state" where
  "run st [] = st"
| "run st (a # as) = run (step st a) as"

subsection \<open>Notions used to state the properties\<close>

text \<open>The options with nothing but the chain specification.\<close>

definition plain_options :: "jsval \<Rightarrow> add_chain_options" where
  "plain_options spec =
     \<lparr>chainSpec = spec, databaseContent = JUndefined, potentialRelayChains = None,
      disableJsonRpc = None, jsonRpcMaxPendingRequests = None, jsonRpcMaxSubscriptions = None\<rparr>"

text \<open>A client whose instance has started, and one whose instance has then panicked.\<close>

definition ready_state :: state where
  "ready_state = step start InstanceStarted"

definition crashed_state :: state where
  "crashed_state = step ready_state (Emit (WasmPanic ''boom'' None))"

text \<open>The rule for the two numeric options in the words of the specification: the value
  that reaches the engine, if any, where \<open>lowest\<close> is the least floored value accepted
  (1 for the pending requests, 0 for the subscriptions).  Unspecified and infinite give the
  32-bit unsigned maximum; a floored value below \<open>lowest\<close>, and \<open>NaN\<close>, are refused; the
  value that is accepted does not exceed the maximum.\<close>

definition u32_max :: int where
  "u32_max = 4294967295"

fun spec_limit :: "int \<Rightarrow> number option \<Rightarrow> int option" where
  "spec_limit lowest None = Some u32_max"
| "spec_limit lowest (Some Infinity) = Some u32_max"
| "spec_limit lowest (Some NaN) = None"
| "spec_limit lowest (Some NegInfinity) = None"
| "spec_limit lowest (Some (Finite q)) =
     (if \<lfloor>q\<rfloor> < lowest then None else Some (min \<lfloor>q\<rfloor> u32_max))"

text \<open>Options that pass every check of \<open>addChain\<close>.\<close>

definition valid_options :: "add_chain_options \<Rightarrow> bool" where
  "valid_options opts \<longleftrightarrow>
     is_string (chainSpec opts) \<and>
     spec_limit 1 (jsonRpcMaxPendingRequests opts) \<noteq> None \<and>
     spec_limit 0 (jsonRpcMaxSubscriptions opts) \<noteq> None \<and>
     (databaseContent opts = JUndefined \<or> is_string (databaseContent opts))"

text \<open>The command that \<open>addChain\<close> issues for valid options in state \<open>st\<close>.\<close>

definition create_chain_command :: "state \<Rightarrow> add_chain_options \<Rightarrow> effect" where
  "create_chain_command st opts =
     InstanceAddChain (the_string (chainSpec opts)) (the_string (databaseContent opts))
       (potentialRelayChainsIds st opts) (truthy (disableJsonRpc opts))
       (Finite (of_int (the (spec_limit 1 (jsonRpcMaxPendingRequests opts)))))
       (Finite (of_int (the (spec_limit 0 (jsonRpcMaxSubscriptions opts)))))"

text \<open>To follow the outcomes to the calls whatever the timing: the actions by which an
  outcome travels (the event that delivers it and the run of a scheduled continuation),
  the outcomes that a sequence of actions delivers, and the calls that have got an
  outcome so far, each with its outcome: first those that have resumed with it and
  settled (a failure rejects with an \<open>AddChainError\<close> of its message, a success returns a
  chain object of its chain id), then those whose continuation is scheduled.\<close>

fun delivers :: "action \<Rightarrow> bool" where
  "delivers (Emit (AddChainResult out)) = True"
| "delivers RunJob = True"
| "delivers _ = False"

fun delivered :: "action list \<Rightarrow> outcome list" where
  "delivered [] = []"
| "delivered (Emit (AddChainResult out) # as) = out # delivered as"
| "delivered (a # as) = delivered as"

fun outcome_settled :: "effect \<Rightarrow> (task \<times> outcome) option" where
  "outcome_settled (Settled t (Throws (AddChainError msg))) = Some (t, Failure msg)"
| "outcome_settled (Settled t (ReturnsChain h)) = Some (t, Success (chainId h))"
| "outcome_settled _ = None"

fun outcome_scheduled :: "job \<Rightarrow> (task \<times> outcome) option" where
  "outcome_scheduled (AddChainAfterOutcome t opts out) = Some (t, out)"
| "outcome_scheduled _ = None"

definition matched :: "state \<Rightarrow> (task \<times> outcome) list" where
  "matched st =
     List.map_filter outcome_settled (effects st) @ List.map_filter outcome_scheduled (jobs st)"

text \<open>The terminal errors: the two classes the source's \<open>destroyed\<close> status can hold.\<close>

fun terminal :: "error \<Rightarrow> bool" where
  "terminal AlreadyDestroyedError = True"
| "terminal (CrashError m) = True"
| "terminal _ = False"

text \<open>A client with one chain: \<open>addChain\<close> was called on the ready client, the instance
  answered with chain 7, and the call resumed and returned the chain object 0.\<close>

definition one_chain_state :: state where
  "one_chain_state =
     run ready_state
       [CallAddChain 1 (plain_options (JString ''X'')), Emit (AddChainResult (Success 7)), RunJob]"

text \<open>The chain object of \<open>one_chain_state\<close>, and that client a little later: a
  connection has been opened, a \<open>nextJsonRpcResponse\<close> call (2) on the chain object waits for
  a response, and a second \<open>addChain\<close> call (3) waits for its outcome.\<close>

definition chain_seven :: chain_handle where
  "chain_seven = \<lparr>self = 0, chainId = 7, options = plain_options (JString ''X'')\<rparr>"

definition busy_state :: state where
  "busy_state =
     run one_chain_state
       [Emit (NewConnection 3 30), CallNextJsonRpcResponse 2 chain_seven,
        CallAddChain 3 (plain_options (JString ''Y''))]"



text \<open>The crash event among the actions.\<close>

fun is_crash :: "action \<Rightarrow> bool" where
  "is_crash (Emit (WasmPanic m ct)) = True"
| "is_crash _ = False"

text \<open>What holds of the state as long as the instance has not started: no chain, no
  pending \<open>addChain\<close>, no outcome on its way to a call, and no chain object returned.\<close>

fun outcome_job :: "job \<Rightarrow> bool" where
  "outcome_job (AddChainAfterOutcome t opts out) = True"
| "outcome_job _ = False"

fun returns_a_chain :: "effect \<Rightarrow> bool" where
  "returns_a_chain (Settled t (ReturnsChain h)) = True"
| "returns_a_chain _ = False"

definition unused :: "state \<Rightarrow> bool" where
  "unused st \<longleftrightarrow>
     chains st = [] \<and> addChainResults st = [] \<and>
     \<not> list_ex outcome_job (jobs st) \<and> \<not> list_ex returns_a_chain (effects st)"

text \<open>Every waiter in the list of a chain belongs to a chain object of that chain, one
  with JSON-RPC enabled.\<close>

definition waiter_of :: "chain_id \<Rightarrow> task \<times> chain_handle \<Rightarrow> bool" where
  "waiter_of cid w \<longleftrightarrow> chainId (snd w) = cid \<and> \<not> truthy (disableJsonRpc (options (snd w)))"

definition keyed :: "(chain_id \<times> (task \<times> chain_handle) list) list \<Rightarrow> bool" where
  "keyed m \<longleftrightarrow> list_all (\<lambda>(cid, ws). list_all (waiter_of cid) ws) m"

text \<open>The invariant of the executions from \<open>start\<close>.\<close>

definition invariant :: "state \<Rightarrow> bool" where
  "invariant st \<longleftrightarrow>
     instance st \<noteq> NotCreated \<and>
     (\<forall>e. instance st = Destroyed e \<longrightarrow> terminal e) \<and>
     (instance st = NotReady \<longrightarrow> unused st) \<and>
     keyed (chains st)"

text \<open>What also holds as long as the instance has not started: the promise \<open>whenReady\<close>
  is not fulfilled, and no call is about to resume from a fulfilled \<open>whenReady\<close>.\<close>

fun resumes_fulfilled :: "job \<Rightarrow> bool" where
  "resumes_fulfilled (AddChainAfterReady t opts None) = True"
| "resumes_fulfilled (TerminateAfterReady t None) = True"
| "resumes_fulfilled _ = False"

definition initialising :: "state \<Rightarrow> bool" where
  "initialising st \<longleftrightarrow> whenReady st \<noteq> Fulfilled \<and> \<not> list_ex resumes_fulfilled (jobs st)"

text \<open>The terminal error after a sequence of actions, when it was \<open>e\<close> before them: each
  crash event puts its own crash error in its place, and nothing else changes it.\<close>

fun final_error :: "error \<Rightarrow> action list \<Rightarrow> error" where
  "final_error e [] = e"
| "final_error e (Emit (WasmPanic m ct) # as) = final_error (CrashError m) as"
| "final_error e (a # as) = final_error e as"

text \<open>A client on which \<open>terminate\<close> has run to its end: it was called on the ready
  client and has resumed after the \<open>executor-shutdown\<close> event.\<close>

definition terminated_state :: state where
  "terminated_state = run ready_state [CallTerminate 1, Emit ExecutorShutdown, RunJob]"

text \<open>The options of the example \<open>addChain({chainSpec: 123})\<close>.\<close>

definition chainSpec_123 :: add_chain_options where
  "chainSpec_123 = plain_options (JNumber (Finite 123))"

text \<open>The client with one chain after \<open>remove\<close> has been called on the chain object, and
  that client after the engine has given the chain id 7 to the next chain: a second
  \<open>addChain\<close> call (2) got the outcome \<open>success\<close> with the chain id 7, resumed, and
  returned the chain object 1.\<close>

definition removed_state :: state where
  "removed_state = run one_chain_state [CallRemove chain_seven]"

definition reused_state :: state where
  "reused_state =
     run removed_state
       [CallAddChain 2 (plain_options (JString ''Z'')), Emit (AddChainResult (Success 7)), RunJob]"

definition chain_seven_again :: chain_handle where
  "chain_seven_again = \<lparr>self = 1, chainId = 7, options = plain_options (JString ''Z'')\<rparr>"

section \<open>Properties\<close>

subsection \<open>The checks of \<open>addChain\<close>\<close>

lemma instance_ready_state: "instance ready_state = Ready"
  by (simp add: ready_state_def start_def instance_started_def settle_whenReady_def schedule_def)

lemma instance_crashed_state: "instance crashed_state = Destroyed (CrashError ''boom'')"
  by (simp add: crashed_state_def call_onExecutorShutdownOrWasmPanic_def wake_chains_def
      fail_addChainResults_def reset_connections_def perform_def schedule_def
      split: option.splits)

text \<open>The two sanitising steps of the source compute the rule of the specification.\<close>

lemma sanitizeMaxPendingRequests_rule:
  "sanitizeMaxPendingRequests v =
     (case spec_limit 1 v of
        None \<Rightarrow> Inl (AddChainError ''Invalid value for `jsonRpcMaxPendingRequests`'')
      | Some n \<Rightarrow> Inr (Finite (of_int n)))"
proof (cases v)
  case None
  then show ?thesis by (simp add: sanitizeMaxPendingRequests_def u32_max_def)
next
  case (Some x)
  show ?thesis
  proof (cases x)
    case (Finite q)
    have a: "(of_int \<lfloor>q\<rfloor> \<le> (0::rat)) = (\<lfloor>q\<rfloor> < 1)" by linarith
    have b: "((4294967295::rat) < of_int \<lfloor>q\<rfloor>) = (4294967295 < \<lfloor>q\<rfloor>)" by linarith
    from Some Finite show ?thesis
      by (simp add: sanitizeMaxPendingRequests_def u32_max_def a b min_def)
  qed (simp_all add: Some sanitizeMaxPendingRequests_def u32_max_def)
qed

lemma sanitizeMaxSubscriptions_rule:
  "sanitizeMaxSubscriptions v =
     (case spec_limit 0 v of
        None \<Rightarrow> Inl (AddChainError ''Invalid value for `jsonRpcMaxSubscriptions`'')
      | Some n \<Rightarrow> Inr (Finite (of_int n)))"
proof (cases v)
  case None
  then show ?thesis by (simp add: sanitizeMaxSubscriptions_def u32_max_def)
next
  case (Some x)
  show ?thesis
  proof (cases x)
    case (Finite q)
    have a: "(of_int \<lfloor>q\<rfloor> < (0::rat)) = (\<lfloor>q\<rfloor> < 0)" by linarith
    have b: "((4294967295::rat) < of_int \<lfloor>q\<rfloor>) = (4294967295 < \<lfloor>q\<rfloor>)" by linarith
    from Some Finite show ?thesis
      by (simp add: sanitizeMaxSubscriptions_def u32_max_def a b min_def)
  qed (simp_all add: Some sanitizeMaxSubscriptions_def u32_max_def)
qed

lemma spec_limit_range:
  "spec_limit lowest v = Some n \<Longrightarrow> lowest \<le> u32_max \<Longrightarrow> lowest \<le> n \<and> n \<le> u32_max"
  by (cases "(lowest, v)" rule: spec_limit.cases) (auto split: if_splits)

text \<open>The whole of \<open>addChain_body\<close> on a ready instance, check by check.\<close>

lemma addChain_body_Ready:
  assumes "instance st = Ready"
  shows "addChain_body st t opts =
     (if \<not> is_string (chainSpec opts) then Inl (Error ''Chain specification must be a string'')
      else case spec_limit 1 (jsonRpcMaxPendingRequests opts) of
        None \<Rightarrow> Inl (AddChainError ''Invalid value for `jsonRpcMaxPendingRequests`'')
      | Some p \<Rightarrow>
         (case spec_limit 0 (jsonRpcMaxSubscriptions opts) of
            None \<Rightarrow> Inl (AddChainError ''Invalid value for `jsonRpcMaxSubscriptions`'')
          | Some s \<Rightarrow>
              if databaseContent opts \<noteq> JUndefined \<and> \<not> is_string (databaseContent opts)
              then Inl (AddChainError ''`databaseContent` is not a string'')
              else Inr (perform
                [InstanceAddChain (the_string (chainSpec opts)) (the_string (databaseContent opts))
                   (potentialRelayChainsIds st opts) (truthy (disableJsonRpc opts))
                   (Finite (of_int p)) (Finite (of_int s))]
                (st\<lparr>addChainResults := addChainResults st @ [(t, opts)]\<rparr>))))"
  using assms
  by (simp add: addChain_body_def sanitizeMaxPendingRequests_rule sanitizeMaxSubscriptions_rule
      split: option.splits)

lemma addChain_body_not_Ready:
  assumes "instance st \<noteq> Ready"
  shows "\<exists>e. addChain_body st t opts = Inl e"
  using assms by (cases "instance st") (simp_all add: addChain_body_def)

lemma addChain_body_Destroyed:
  "instance st = Destroyed e \<Longrightarrow> addChain_body st t opts = Inl e"
  by (simp add: addChain_body_def)

lemma addChain_body_valid:
  assumes "instance st = Ready" and "valid_options opts"
  shows "\<exists>p s. 1 \<le> p \<and> p \<le> u32_max \<and> 0 \<le> s \<and> s \<le> u32_max \<and>
      spec_limit 1 (jsonRpcMaxPendingRequests opts) = Some p \<and>
      spec_limit 0 (jsonRpcMaxSubscriptions opts) = Some s \<and>
      addChain_body st t opts = Inr (perform
        [InstanceAddChain (the_string (chainSpec opts)) (the_string (databaseContent opts))
           (potentialRelayChainsIds st opts) (truthy (disableJsonRpc opts))
           (Finite (of_int p)) (Finite (of_int s))]
        (st\<lparr>addChainResults := addChainResults st @ [(t, opts)]\<rparr>))"
proof -
  from assms(2) obtain p s where
    p: "spec_limit 1 (jsonRpcMaxPendingRequests opts) = Some p" and
    s: "spec_limit 0 (jsonRpcMaxSubscriptions opts) = Some s"
    by (auto simp add: valid_options_def)
  have "1 \<le> p \<and> p \<le> u32_max"
    using spec_limit_range[OF p] by (simp add: u32_max_def)
  moreover have "0 \<le> s \<and> s \<le> u32_max"
    using spec_limit_range[OF s] by (simp add: u32_max_def)
  moreover have "addChain_body st t opts = Inr (perform
        [InstanceAddChain (the_string (chainSpec opts)) (the_string (databaseContent opts))
           (potentialRelayChainsIds st opts) (truthy (disableJsonRpc opts))
           (Finite (of_int p)) (Finite (of_int s))]
        (st\<lparr>addChainResults := addChainResults st @ [(t, opts)]\<rparr>))"
    using assms p s by (auto simp add: addChain_body_Ready valid_options_def)
  ultimately show ?thesis using p s by blast
qed

lemma addChain_body_Inr_valid:
  assumes "addChain_body st t opts = Inr st'"
  shows "instance st = Ready \<and> valid_options opts"
proof -
  have r: "instance st = Ready"
    using assms addChain_body_not_Ready[of st t opts] by (cases "instance st = Ready") auto
  with assms show ?thesis
    by (auto simp add: addChain_body_Ready valid_options_def split: if_splits option.splits)
qed

text \<open>A call whose body throws in every state issues no command and appends nothing to the
  ledger, neither when it is made nor when it resumes after \<open>await whenReady\<close>.\<close>

lemma rejected_call_no_command:
  assumes "\<And>s. \<exists>e. addChain_body s t opts = Inl e"
  shows "addChainResults (addChain st t opts) = addChainResults st \<and>
    (effects (addChain st t opts) = effects st \<or>
     (\<exists>e. effects (addChain st t opts) = effects st @ [Settled t (Throws e)])) \<and>
    (\<forall>r. addChainResults (run_job st (AddChainAfterReady t opts r)) = addChainResults st \<and>
       (\<exists>e. effects (run_job st (AddChainAfterReady t opts r)) =
          effects st @ [Settled t (Throws e)]))"
proof -
  from assms obtain e where e: "addChain_body st t opts = Inl e" by blast
  then have f: "addChain_from_ready st t opts = settle t (Throws e) st"
    by (simp add: addChain_from_ready_def)
  have 1: "addChainResults (addChain st t opts) = addChainResults st"
    by (simp add: addChain_def f await_ready_def settle_def perform_def schedule_def
        split: ready_promise.splits)
  have 2: "effects (addChain st t opts) = effects st \<or>
     (\<exists>e. effects (addChain st t opts) = effects st @ [Settled t (Throws e)])"
    by (simp add: addChain_def f await_ready_def settle_def perform_def schedule_def
        split: ready_promise.splits)
  have 3: "\<forall>r. addChainResults (run_job st (AddChainAfterReady t opts r)) = addChainResults st \<and>
       (\<exists>e. effects (run_job st (AddChainAfterReady t opts r)) =
          effects st @ [Settled t (Throws e)])"
  proof
    fix r
    show "addChainResults (run_job st (AddChainAfterReady t opts r)) = addChainResults st \<and>
       (\<exists>e. effects (run_job st (AddChainAfterReady t opts r)) =
          effects st @ [Settled t (Throws e)])"
      by (cases r) (simp_all add: f settle_def perform_def)
  qed
  from 1 2 3 show ?thesis by blast
qed

lemma sanitizeMaxPendingRequests_Finite:
  "sanitizeMaxPendingRequests (Some (Finite q)) =
     (if \<lfloor>q\<rfloor> \<le> 0 then Inl (AddChainError ''Invalid value for `jsonRpcMaxPendingRequests`'')
      else Inr (Finite (of_int (min \<lfloor>q\<rfloor> 4294967295))))"
proof -
  have "(\<lfloor>q\<rfloor> < 1) = (\<lfloor>q\<rfloor> \<le> 0)" by linarith
  then show ?thesis by (simp add: sanitizeMaxPendingRequests_rule u32_max_def)
qed

lemma sanitizeMaxSubscriptions_Finite:
  "sanitizeMaxSubscriptions (Some (Finite q)) =
     (if \<lfloor>q\<rfloor> < 0 then Inl (AddChainError ''Invalid value for `jsonRpcMaxSubscriptions`'')
      else Inr (Finite (of_int (min \<lfloor>q\<rfloor> 4294967295))))"
  by (simp add: sanitizeMaxSubscriptions_rule u32_max_def)

lemma sanitizeMaxPendingRequests_range:
  assumes "sanitizeMaxPendingRequests v = Inr n"
  shows "\<exists>k::int. n = Finite (of_int k) \<and> 1 \<le> k \<and> k \<le> 4294967295"
proof (cases "spec_limit 1 v")
  case None
  with assms show ?thesis by (simp add: sanitizeMaxPendingRequests_rule)
next
  case (Some k)
  from spec_limit_range[OF Some] have "1 \<le> k \<and> k \<le> 4294967295" by (simp add: u32_max_def)
  moreover from assms Some have "n = Finite (of_int k)"
    by (simp add: sanitizeMaxPendingRequests_rule)
  ultimately show ?thesis by (intro exI[of _ k]) simp
qed

lemma sanitizeMaxSubscriptions_range:
  assumes "sanitizeMaxSubscriptions v = Inr n"
  shows "\<exists>k::int. n = Finite (of_int k) \<and> 0 \<le> k \<and> k \<le> 4294967295"
proof (cases "spec_limit 0 v")
  case None
  with assms show ?thesis by (simp add: sanitizeMaxSubscriptions_rule)
next
  case (Some k)
  from spec_limit_range[OF Some] have "0 \<le> k \<and> k \<le> 4294967295" by (simp add: u32_max_def)
  moreover from assms Some have "n = Finite (of_int k)"
    by (simp add: sanitizeMaxSubscriptions_rule)
  ultimately show ?thesis by (intro exI[of _ k]) simp
qed

lemma sanitizeMaxPendingRequests_error:
  "sanitizeMaxPendingRequests v = Inl e \<Longrightarrow>
   e = AddChainError ''Invalid value for `jsonRpcMaxPendingRequests`''"
  by (auto simp add: sanitizeMaxPendingRequests_rule split: option.splits)

lemma sanitizeMaxSubscriptions_error:
  "sanitizeMaxSubscriptions v = Inl e \<Longrightarrow>
   e = AddChainError ''Invalid value for `jsonRpcMaxSubscriptions`''"
  by (auto simp add: sanitizeMaxSubscriptions_rule split: option.splits)

lemma addChain_body_invalid_pending:
  assumes "sanitizeMaxPendingRequests (jsonRpcMaxPendingRequests opts) = Inl e"
  shows "addChain_body st t opts =
     Inl (case instance st of
            Destroyed e' \<Rightarrow> e'
          | Ready \<Rightarrow>
              if is_string (chainSpec opts)
              then AddChainError ''Invalid value for `jsonRpcMaxPendingRequests`''
              else Error ''Chain specification must be a string''
          | _ \<Rightarrow> Error [])"
  using assms sanitizeMaxPendingRequests_error[OF assms]
  by (cases "instance st") (simp_all add: addChain_body_def)

lemma addChain_body_invalid_subscriptions:
  assumes "sanitizeMaxPendingRequests (jsonRpcMaxPendingRequests opts) = Inr p"
    and "sanitizeMaxSubscriptions (jsonRpcMaxSubscriptions opts) = Inl e"
  shows "addChain_body st t opts =
     Inl (case instance st of
            Destroyed e' \<Rightarrow> e'
          | Ready \<Rightarrow>
              if is_string (chainSpec opts)
              then AddChainError ''Invalid value for `jsonRpcMaxSubscriptions`''
              else Error ''Chain specification must be a string''
          | _ \<Rightarrow> Error [])"
  using assms sanitizeMaxSubscriptions_error[OF assms(2)]
  by (cases "instance st") (simp_all add: addChain_body_def)

lemma addChain_body_command:
  assumes "addChain_body st t opts = Inr st'"
  shows "\<exists>p s. sanitizeMaxPendingRequests (jsonRpcMaxPendingRequests opts) = Inr p \<and>
      sanitizeMaxSubscriptions (jsonRpcMaxSubscriptions opts) = Inr s \<and>
      (databaseContent opts = JUndefined \<or> is_string (databaseContent opts)) \<and>
      st' = perform
        [InstanceAddChain (the_string (chainSpec opts)) (the_string (databaseContent opts))
           (potentialRelayChainsIds st opts) (truthy (disableJsonRpc opts)) p s]
        (st\<lparr>addChainResults := addChainResults st @ [(t, opts)]\<rparr>)"
  using assms
  by (cases "instance st")
     (auto simp add: addChain_body_def split: if_splits sum.splits)

lemma addChain_body_accepts:
  assumes "instance st = Ready" and "is_string (chainSpec opts)"
    and "sanitizeMaxPendingRequests (jsonRpcMaxPendingRequests opts) = Inr p"
    and "sanitizeMaxSubscriptions (jsonRpcMaxSubscriptions opts) = Inr s"
  shows "addChain_body st t opts =
     (if databaseContent opts \<noteq> JUndefined \<and> \<not> is_string (databaseContent opts)
      then Inl (AddChainError ''`databaseContent` is not a string'')
      else Inr (perform
        [InstanceAddChain (the_string (chainSpec opts)) (the_string (databaseContent opts))
           (potentialRelayChainsIds st opts) (truthy (disableJsonRpc opts)) p s]
        (st\<lparr>addChainResults := addChainResults st @ [(t, opts)]\<rparr>)))"
  using assms by (simp add: addChain_body_def)



lemma addChain_body_bad_databaseContent:
  assumes "databaseContent opts \<noteq> JUndefined" and "\<not> is_string (databaseContent opts)"
  shows "addChain_body st t opts =
     Inl (case instance st of
            Destroyed e \<Rightarrow> e
          | NotCreated \<Rightarrow> Error []
          | NotReady \<Rightarrow> Error []
          | Ready \<Rightarrow>
              if \<not> is_string (chainSpec opts) then Error ''Chain specification must be a string''
              else
                (case sanitizeMaxPendingRequests (jsonRpcMaxPendingRequests opts) of
                   Inl e \<Rightarrow> e
                 | Inr p \<Rightarrow>
                     (case sanitizeMaxSubscriptions (jsonRpcMaxSubscriptions opts) of
                        Inl e \<Rightarrow> e
                      | Inr s \<Rightarrow> AddChainError ''`databaseContent` is not a string'')))"
  using assms
  by (cases "instance st") (simp_all add: addChain_body_def split: sum.splits)


text \<open>
  Claim C5.  The two sanitising steps of \<open>addChain\<close> (lines 482 to 500) compute the rule
  for the numeric options.  For \<open>jsonRpcMaxPendingRequests\<close>: an option that is
  unspecified or infinite gives \<open>2^32 - 1\<close>; \<open>NaN\<close>, minus infinity and every finite value
  whose floor is not positive (such as \<open>-1\<close>) are refused with the invalid-value
  \<open>AddChainError\<close>; every other finite value gives its floor, or \<open>2^32 - 1\<close> when the floor
  is larger; so the value that is accepted, the one that reaches the engine, is always an
  integer from 1 to \<open>2^32 - 1\<close>.  For \<open>jsonRpcMaxSubscriptions\<close> the same holds with zero
  accepted: only a negative floor (and \<open>NaN\<close>) is refused, and the accepted value is an
  integer from 0 to \<open>2^32 - 1\<close>.  In \<open>addChain\<close>, a refused option makes the call throw
  before the command is issued and before the ledger is touched, in every state: the
  error is the invalid-value error of the option (that of \<open>jsonRpcMaxPendingRequests\<close>
  first) where the call gets as far as the sanitising steps, and the error of the status
  check or of the \<open>chainSpec\<close> check where one of these, which come first, throws; the
  call and its resumption after \<open>await whenReady\<close> leave the ledger as it is and add
  nothing to the effects but the rejection.  Every command that is issued carries the two
  sanitised values, and a call on a ready instance whose options pass the checks issues
  it.
\<close>

theorem addChain_numeric_options:
  "sanitizeMaxPendingRequests None = Inr (Finite 4294967295) \<and>
   sanitizeMaxPendingRequests (Some Infinity) = Inr (Finite 4294967295) \<and>
   sanitizeMaxPendingRequests (Some NaN) =
     Inl (AddChainError ''Invalid value for `jsonRpcMaxPendingRequests`'') \<and>
   sanitizeMaxPendingRequests (Some NegInfinity) =
     Inl (AddChainError ''Invalid value for `jsonRpcMaxPendingRequests`'') \<and>
   sanitizeMaxPendingRequests (Some (Finite q)) =
     (if \<lfloor>q\<rfloor> \<le> 0 then Inl (AddChainError ''Invalid value for `jsonRpcMaxPendingRequests`'')
      else Inr (Finite (of_int (min \<lfloor>q\<rfloor> 4294967295)))) \<and>
   (\<forall>n. sanitizeMaxPendingRequests v = Inr n \<longrightarrow>
      (\<exists>k::int. n = Finite (of_int k) \<and> 1 \<le> k \<and> k \<le> 4294967295)) \<and>
   sanitizeMaxSubscriptions None = Inr (Finite 4294967295) \<and>
   sanitizeMaxSubscriptions (Some Infinity) = Inr (Finite 4294967295) \<and>
   sanitizeMaxSubscriptions (Some NaN) =
     Inl (AddChainError ''Invalid value for `jsonRpcMaxSubscriptions`'') \<and>
   sanitizeMaxSubscriptions (Some NegInfinity) =
     Inl (AddChainError ''Invalid value for `jsonRpcMaxSubscriptions`'') \<and>
   sanitizeMaxSubscriptions (Some (Finite q)) =
     (if \<lfloor>q\<rfloor> < 0 then Inl (AddChainError ''Invalid value for `jsonRpcMaxSubscriptions`'')
      else Inr (Finite (of_int (min \<lfloor>q\<rfloor> 4294967295)))) \<and>
   (\<forall>n. sanitizeMaxSubscriptions v = Inr n \<longrightarrow>
      (\<exists>k::int. n = Finite (of_int k) \<and> 0 \<le> k \<and> k \<le> 4294967295)) \<and>
   (\<forall>e. sanitizeMaxPendingRequests (jsonRpcMaxPendingRequests opts) = Inl e \<longrightarrow>
      addChain_body st t opts =
        Inl (case instance st of
               Destroyed e' \<Rightarrow> e'
             | Ready \<Rightarrow>
                 if is_string (chainSpec opts)
                 then AddChainError ''Invalid value for `jsonRpcMaxPendingRequests`''
                 else Error ''Chain specification must be a string''
             | _ \<Rightarrow> Error [])) \<and>
   (\<forall>p e. sanitizeMaxPendingRequests (jsonRpcMaxPendingRequests opts) = Inr p \<and>
      sanitizeMaxSubscriptions (jsonRpcMaxSubscriptions opts) = Inl e \<longrightarrow>
      addChain_body st t opts =
        Inl (case instance st of
               Destroyed e' \<Rightarrow> e'
             | Ready \<Rightarrow>
                 if is_string (chainSpec opts)
                 then AddChainError ''Invalid value for `jsonRpcMaxSubscriptions`''
                 else Error ''Chain specification must be a string''
             | _ \<Rightarrow> Error [])) \<and>
   ((\<exists>e. sanitizeMaxPendingRequests (jsonRpcMaxPendingRequests opts) = Inl e) \<or>
    (\<exists>e. sanitizeMaxSubscriptions (jsonRpcMaxSubscriptions opts) = Inl e) \<longrightarrow>
      addChainResults (addChain st t opts) = addChainResults st \<and>
      (effects (addChain st t opts) = effects st \<or>
       (\<exists>e. effects (addChain st t opts) = effects st @ [Settled t (Throws e)])) \<and>
      (\<forall>r. addChainResults (run_job st (AddChainAfterReady t opts r)) = addChainResults st \<and>
         (\<exists>e. effects (run_job st (AddChainAfterReady t opts r)) =
            effects st @ [Settled t (Throws e)]))) \<and>
   (\<forall>st'. addChain_body st t opts = Inr st' \<longrightarrow>
      (\<exists>p s. sanitizeMaxPendingRequests (jsonRpcMaxPendingRequests opts) = Inr p \<and>
         sanitizeMaxSubscriptions (jsonRpcMaxSubscriptions opts) = Inr s \<and>
         effects st' = effects st @
           [InstanceAddChain (the_string (chainSpec opts)) (the_string (databaseContent opts))
              (potentialRelayChainsIds st opts) (truthy (disableJsonRpc opts)) p s])) \<and>
   (\<forall>p s. instance st = Ready \<and> is_string (chainSpec opts) \<and>
      (databaseContent opts = JUndefined \<or> is_string (databaseContent opts)) \<and>
      sanitizeMaxPendingRequests (jsonRpcMaxPendingRequests opts) = Inr p \<and>
      sanitizeMaxSubscriptions (jsonRpcMaxSubscriptions opts) = Inr s \<longrightarrow>
      (\<exists>st'. addChain_body st t opts = Inr st' \<and>
         effects st' = effects st @
           [InstanceAddChain (the_string (chainSpec opts)) (the_string (databaseContent opts))
              (potentialRelayChainsIds st opts) (truthy (disableJsonRpc opts)) p s]))"
proof (intro conjI)
  show "sanitizeMaxPendingRequests None = Inr (Finite 4294967295)"
    "sanitizeMaxPendingRequests (Some Infinity) = Inr (Finite 4294967295)"
    "sanitizeMaxPendingRequests (Some NaN) =
       Inl (AddChainError ''Invalid value for `jsonRpcMaxPendingRequests`'')"
    "sanitizeMaxPendingRequests (Some NegInfinity) =
       Inl (AddChainError ''Invalid value for `jsonRpcMaxPendingRequests`'')"
    by (simp_all add: sanitizeMaxPendingRequests_def)
  show "sanitizeMaxPendingRequests (Some (Finite q)) =
     (if \<lfloor>q\<rfloor> \<le> 0 then Inl (AddChainError ''Invalid value for `jsonRpcMaxPendingRequests`'')
      else Inr (Finite (of_int (min \<lfloor>q\<rfloor> 4294967295))))"
    by (rule sanitizeMaxPendingRequests_Finite)
  show "\<forall>n. sanitizeMaxPendingRequests v = Inr n \<longrightarrow>
      (\<exists>k::int. n = Finite (of_int k) \<and> 1 \<le> k \<and> k \<le> 4294967295)"
    using sanitizeMaxPendingRequests_range by blast
  show "sanitizeMaxSubscriptions None = Inr (Finite 4294967295)"
    "sanitizeMaxSubscriptions (Some Infinity) = Inr (Finite 4294967295)"
    "sanitizeMaxSubscriptions (Some NaN) =
       Inl (AddChainError ''Invalid value for `jsonRpcMaxSubscriptions`'')"
    "sanitizeMaxSubscriptions (Some NegInfinity) =
       Inl (AddChainError ''Invalid value for `jsonRpcMaxSubscriptions`'')"
    by (simp_all add: sanitizeMaxSubscriptions_def)
  show "sanitizeMaxSubscriptions (Some (Finite q)) =
     (if \<lfloor>q\<rfloor> < 0 then Inl (AddChainError ''Invalid value for `jsonRpcMaxSubscriptions`'')
      else Inr (Finite (of_int (min \<lfloor>q\<rfloor> 4294967295))))"
    by (rule sanitizeMaxSubscriptions_Finite)
  show "\<forall>n. sanitizeMaxSubscriptions v = Inr n \<longrightarrow>
      (\<exists>k::int. n = Finite (of_int k) \<and> 0 \<le> k \<and> k \<le> 4294967295)"
    using sanitizeMaxSubscriptions_range by blast
  show "\<forall>e. sanitizeMaxPendingRequests (jsonRpcMaxPendingRequests opts) = Inl e \<longrightarrow>
      addChain_body st t opts =
        Inl (case instance st of
               Destroyed e' \<Rightarrow> e'
             | Ready \<Rightarrow>
                 if is_string (chainSpec opts)
                 then AddChainError ''Invalid value for `jsonRpcMaxPendingRequests`''
                 else Error ''Chain specification must be a string''
             | _ \<Rightarrow> Error [])"
    using addChain_body_invalid_pending by blast
  show "\<forall>p e. sanitizeMaxPendingRequests (jsonRpcMaxPendingRequests opts) = Inr p \<and>
      sanitizeMaxSubscriptions (jsonRpcMaxSubscriptions opts) = Inl e \<longrightarrow>
      addChain_body st t opts =
        Inl (case instance st of
               Destroyed e' \<Rightarrow> e'
             | Ready \<Rightarrow>
                 if is_string (chainSpec opts)
                 then AddChainError ''Invalid value for `jsonRpcMaxSubscriptions`''
                 else Error ''Chain specification must be a string''
             | _ \<Rightarrow> Error [])"
    using addChain_body_invalid_subscriptions by blast
  show "(\<exists>e. sanitizeMaxPendingRequests (jsonRpcMaxPendingRequests opts) = Inl e) \<or>
    (\<exists>e. sanitizeMaxSubscriptions (jsonRpcMaxSubscriptions opts) = Inl e) \<longrightarrow>
      addChainResults (addChain st t opts) = addChainResults st \<and>
      (effects (addChain st t opts) = effects st \<or>
       (\<exists>e. effects (addChain st t opts) = effects st @ [Settled t (Throws e)])) \<and>
      (\<forall>r. addChainResults (run_job st (AddChainAfterReady t opts r)) = addChainResults st \<and>
         (\<exists>e. effects (run_job st (AddChainAfterReady t opts r)) =
            effects st @ [Settled t (Throws e)]))"
  proof
    assume bad: "(\<exists>e. sanitizeMaxPendingRequests (jsonRpcMaxPendingRequests opts) = Inl e) \<or>
      (\<exists>e. sanitizeMaxSubscriptions (jsonRpcMaxSubscriptions opts) = Inl e)"
    have "\<exists>e. addChain_body s t opts = Inl e" for s
    proof (cases "sanitizeMaxPendingRequests (jsonRpcMaxPendingRequests opts)")
      case (Inl e)
      from addChain_body_invalid_pending[OF this] show ?thesis by blast
    next
      case (Inr p)
      with bad obtain e where "sanitizeMaxSubscriptions (jsonRpcMaxSubscriptions opts) = Inl e"
        by auto
      from addChain_body_invalid_subscriptions[OF Inr this] show ?thesis by blast
    qed
    then show "addChainResults (addChain st t opts) = addChainResults st \<and>
      (effects (addChain st t opts) = effects st \<or>
       (\<exists>e. effects (addChain st t opts) = effects st @ [Settled t (Throws e)])) \<and>
      (\<forall>r. addChainResults (run_job st (AddChainAfterReady t opts r)) = addChainResults st \<and>
         (\<exists>e. effects (run_job st (AddChainAfterReady t opts r)) =
            effects st @ [Settled t (Throws e)]))"
      by (rule rejected_call_no_command)
  qed
  show "\<forall>st'. addChain_body st t opts = Inr st' \<longrightarrow>
      (\<exists>p s. sanitizeMaxPendingRequests (jsonRpcMaxPendingRequests opts) = Inr p \<and>
         sanitizeMaxSubscriptions (jsonRpcMaxSubscriptions opts) = Inr s \<and>
         effects st' = effects st @
           [InstanceAddChain (the_string (chainSpec opts)) (the_string (databaseContent opts))
              (potentialRelayChainsIds st opts) (truthy (disableJsonRpc opts)) p s])"
  proof (intro allI impI)
    fix st' assume "addChain_body st t opts = Inr st'"
    from addChain_body_command[OF this]
    show "\<exists>p s. sanitizeMaxPendingRequests (jsonRpcMaxPendingRequests opts) = Inr p \<and>
         sanitizeMaxSubscriptions (jsonRpcMaxSubscriptions opts) = Inr s \<and>
         effects st' = effects st @
           [InstanceAddChain (the_string (chainSpec opts)) (the_string (databaseContent opts))
              (potentialRelayChainsIds st opts) (truthy (disableJsonRpc opts)) p s]"
      by (auto simp add: perform_def)
  qed
  show "\<forall>p s. instance st = Ready \<and> is_string (chainSpec opts) \<and>
      (databaseContent opts = JUndefined \<or> is_string (databaseContent opts)) \<and>
      sanitizeMaxPendingRequests (jsonRpcMaxPendingRequests opts) = Inr p \<and>
      sanitizeMaxSubscriptions (jsonRpcMaxSubscriptions opts) = Inr s \<longrightarrow>
      (\<exists>st'. addChain_body st t opts = Inr st' \<and>
         effects st' = effects st @
           [InstanceAddChain (the_string (chainSpec opts)) (the_string (databaseContent opts))
              (potentialRelayChainsIds st opts) (truthy (disableJsonRpc opts)) p s])"
  proof (intro allI impI)
    fix p s
    assume a: "instance st = Ready \<and> is_string (chainSpec opts) \<and>
      (databaseContent opts = JUndefined \<or> is_string (databaseContent opts)) \<and>
      sanitizeMaxPendingRequests (jsonRpcMaxPendingRequests opts) = Inr p \<and>
      sanitizeMaxSubscriptions (jsonRpcMaxSubscriptions opts) = Inr s"
    then have "addChain_body st t opts = Inr (perform
        [InstanceAddChain (the_string (chainSpec opts)) (the_string (databaseContent opts))
           (potentialRelayChainsIds st opts) (truthy (disableJsonRpc opts)) p s]
        (st\<lparr>addChainResults := addChainResults st @ [(t, opts)]\<rparr>))"
      using addChain_body_accepts[of st opts p s t] by auto
    then show "\<exists>st'. addChain_body st t opts = Inr st' \<and>
         effects st' = effects st @
           [InstanceAddChain (the_string (chainSpec opts)) (the_string (databaseContent opts))
              (potentialRelayChainsIds st opts) (truthy (disableJsonRpc opts)) p s]"
      by (simp add: perform_def)
  qed
qed



lemma floor_five_halves: "\<lfloor>5 / 2 :: rat\<rfloor> = 2"
  by (rule floor_unique) simp_all

theorem addChain_numeric_options_witness:
  "addChain_body ready_state 1
      ((plain_options (JString ''X''))\<lparr>jsonRpcMaxPendingRequests := Some (Finite (- 1))\<rparr>)
     = Inl (AddChainError ''Invalid value for `jsonRpcMaxPendingRequests`'') \<and>
   addChain_body ready_state 1
      ((plain_options (JString ''X''))\<lparr>jsonRpcMaxPendingRequests := Some (Finite 0)\<rparr>)
     = Inl (AddChainError ''Invalid value for `jsonRpcMaxPendingRequests`'') \<and>
   addChain_body ready_state 1
      ((plain_options (JString ''X''))\<lparr>jsonRpcMaxSubscriptions := Some (Finite (- 1))\<rparr>)
     = Inl (AddChainError ''Invalid value for `jsonRpcMaxSubscriptions`'') \<and>
   (\<exists>st'. addChain_body ready_state 1
      ((plain_options (JString ''X''))\<lparr>jsonRpcMaxPendingRequests := Some (Finite 8589934592),
         jsonRpcMaxSubscriptions := Some (Finite 0)\<rparr>) = Inr st' \<and>
      effects st' = effects ready_state @
        [InstanceAddChain ''X'' [] [] False (Finite 4294967295) (Finite 0)]) \<and>
   (\<exists>st'. addChain_body ready_state 1
      ((plain_options (JString ''X''))\<lparr>jsonRpcMaxPendingRequests := Some (Finite (5 / 2))\<rparr>)
        = Inr st' \<and>
      effects st' = effects ready_state @
        [InstanceAddChain ''X'' [] [] False (Finite 2) (Finite 4294967295)])"
proof -
  let ?X = "plain_options (JString ''X'')"
  note rule = addChain_numeric_options [where st = ready_state and t = 1]
  have 1: "addChain_body ready_state 1 (?X\<lparr>jsonRpcMaxPendingRequests := Some (Finite (- 1))\<rparr>)
     = Inl (AddChainError ''Invalid value for `jsonRpcMaxPendingRequests`'')"
    using rule [where q = "- 1" and opts = "?X\<lparr>jsonRpcMaxPendingRequests := Some (Finite (- 1))\<rparr>"]
    by (simp add: instance_ready_state plain_options_def)
  have 2: "addChain_body ready_state 1 (?X\<lparr>jsonRpcMaxPendingRequests := Some (Finite 0)\<rparr>)
     = Inl (AddChainError ''Invalid value for `jsonRpcMaxPendingRequests`'')"
    using rule [where q = 0 and opts = "?X\<lparr>jsonRpcMaxPendingRequests := Some (Finite 0)\<rparr>"]
    by (simp add: instance_ready_state plain_options_def)
  have 3: "addChain_body ready_state 1 (?X\<lparr>jsonRpcMaxSubscriptions := Some (Finite (- 1))\<rparr>)
     = Inl (AddChainError ''Invalid value for `jsonRpcMaxSubscriptions`'')"
    using rule [where q = "- 1" and opts = "?X\<lparr>jsonRpcMaxSubscriptions := Some (Finite (- 1))\<rparr>"]
    by (simp add: instance_ready_state plain_options_def)
  have 4: "\<exists>st'. addChain_body ready_state 1
      (?X\<lparr>jsonRpcMaxPendingRequests := Some (Finite 8589934592),
         jsonRpcMaxSubscriptions := Some (Finite 0)\<rparr>) = Inr st' \<and>
      effects st' = effects ready_state @
        [InstanceAddChain ''X'' [] [] False (Finite 4294967295) (Finite 0)]"
    using rule [where q = 8589934592
        and opts = "?X\<lparr>jsonRpcMaxPendingRequests := Some (Finite 8589934592),
         jsonRpcMaxSubscriptions := Some (Finite 0)\<rparr>"]
      rule [where q = 0
        and opts = "?X\<lparr>jsonRpcMaxPendingRequests := Some (Finite 8589934592),
         jsonRpcMaxSubscriptions := Some (Finite 0)\<rparr>"]
    by (simp add: instance_ready_state plain_options_def potentialRelayChainsIds_def)
  have 5: "\<exists>st'. addChain_body ready_state 1
      (?X\<lparr>jsonRpcMaxPendingRequests := Some (Finite (5 / 2))\<rparr>) = Inr st' \<and>
      effects st' = effects ready_state @
        [InstanceAddChain ''X'' [] [] False (Finite 2) (Finite 4294967295)]"
    using rule [where q = "5 / 2"
        and opts = "?X\<lparr>jsonRpcMaxPendingRequests := Some (Finite (5 / 2))\<rparr>"]
    by (simp add: instance_ready_state plain_options_def potentialRelayChainsIds_def
        floor_five_halves)
  from 1 2 3 4 5 show ?thesis by blast
qed

text \<open>
  Claim C10.  \<open>addChain\<close> also checks \<open>options.databaseContent\<close> (lines 502 to 504), as
  the last of its checks.  A value that is defined and not a string makes the call throw
  before the command is issued and before the ledger is touched, in every state: the
  error is the \<open>AddChainError\<close> that says that \<open>databaseContent\<close> is not a string where the
  call gets as far as this check, and the error of an earlier check (status of the
  instance, \<open>chainSpec\<close>, the two numeric options, in this order) where one of them
  throws; the call and its resumption after \<open>await whenReady\<close> leave the ledger as it is
  and add nothing to the effects but the rejection.  On a ready instance with a string
  \<open>chainSpec\<close> and accepted numeric options: the value that is defined and not a string
  gives that \<open>AddChainError\<close>; an undefined \<open>databaseContent\<close> lets the command be issued
  with the empty string in its place; and a string is passed on as it is.  No command is
  issued with a \<open>databaseContent\<close> that is neither undefined nor a string.
\<close>

theorem addChain_databaseContent:
  "(databaseContent opts \<noteq> JUndefined \<and> \<not> is_string (databaseContent opts) \<longrightarrow>
      addChain_body st t opts =
        Inl (case instance st of
               Destroyed e \<Rightarrow> e
             | NotCreated \<Rightarrow> Error []
             | NotReady \<Rightarrow> Error []
             | Ready \<Rightarrow>
                 if \<not> is_string (chainSpec opts)
                 then Error ''Chain specification must be a string''
                 else
                   (case sanitizeMaxPendingRequests (jsonRpcMaxPendingRequests opts) of
                      Inl e \<Rightarrow> e
                    | Inr p \<Rightarrow>
                        (case sanitizeMaxSubscriptions (jsonRpcMaxSubscriptions opts) of
                           Inl e \<Rightarrow> e
                         | Inr s \<Rightarrow> AddChainError ''`databaseContent` is not a string''))) \<and>
      addChainResults (addChain st t opts) = addChainResults st \<and>
      (effects (addChain st t opts) = effects st \<or>
       (\<exists>e. effects (addChain st t opts) = effects st @ [Settled t (Throws e)])) \<and>
      (\<forall>r. addChainResults (run_job st (AddChainAfterReady t opts r)) = addChainResults st \<and>
         (\<exists>e. effects (run_job st (AddChainAfterReady t opts r)) =
            effects st @ [Settled t (Throws e)]))) \<and>
   (\<forall>p s. instance st = Ready \<and> is_string (chainSpec opts) \<and>
      sanitizeMaxPendingRequests (jsonRpcMaxPendingRequests opts) = Inr p \<and>
      sanitizeMaxSubscriptions (jsonRpcMaxSubscriptions opts) = Inr s \<longrightarrow>
      (databaseContent opts \<noteq> JUndefined \<and> \<not> is_string (databaseContent opts) \<longrightarrow>
         addChain_body st t opts = Inl (AddChainError ''`databaseContent` is not a string'')) \<and>
      (databaseContent opts = JUndefined \<longrightarrow>
         addChain_body st t opts = Inr (perform
           [InstanceAddChain (the_string (chainSpec opts)) []
              (potentialRelayChainsIds st opts) (truthy (disableJsonRpc opts)) p s]
           (st\<lparr>addChainResults := addChainResults st @ [(t, opts)]\<rparr>))) \<and>
      (\<forall>db. databaseContent opts = JString db \<longrightarrow>
         addChain_body st t opts = Inr (perform
           [InstanceAddChain (the_string (chainSpec opts)) db
              (potentialRelayChainsIds st opts) (truthy (disableJsonRpc opts)) p s]
           (st\<lparr>addChainResults := addChainResults st @ [(t, opts)]\<rparr>)))) \<and>
   (\<forall>st'. addChain_body st t opts = Inr st' \<longrightarrow>
      (databaseContent opts = JUndefined \<or> is_string (databaseContent opts)) \<and>
      (\<exists>spec ids dis p s. effects st' = effects st @
         [InstanceAddChain spec (the_string (databaseContent opts)) ids dis p s]))"
proof (intro conjI impI allI)
  assume bad: "databaseContent opts \<noteq> JUndefined \<and> \<not> is_string (databaseContent opts)"
  then have b: "databaseContent opts \<noteq> JUndefined" "\<not> is_string (databaseContent opts)"
    by simp_all
  note body = addChain_body_bad_databaseContent [OF b]
  show "addChain_body st t opts =
        Inl (case instance st of
               Destroyed e \<Rightarrow> e
             | NotCreated \<Rightarrow> Error []
             | NotReady \<Rightarrow> Error []
             | Ready \<Rightarrow>
                 if \<not> is_string (chainSpec opts)
                 then Error ''Chain specification must be a string''
                 else
                   (case sanitizeMaxPendingRequests (jsonRpcMaxPendingRequests opts) of
                      Inl e \<Rightarrow> e
                    | Inr p \<Rightarrow>
                        (case sanitizeMaxSubscriptions (jsonRpcMaxSubscriptions opts) of
                           Inl e \<Rightarrow> e
                         | Inr s \<Rightarrow> AddChainError ''`databaseContent` is not a string'')))"
    by (rule body)
  have "\<exists>e. addChain_body s t opts = Inl e" for s
    using addChain_body_bad_databaseContent [OF b, of s t] by blast
  note whole = rejected_call_no_command [of t opts st, OF this]
  from whole show "addChainResults (addChain st t opts) = addChainResults st" by blast
  from whole show "effects (addChain st t opts) = effects st \<or>
       (\<exists>e. effects (addChain st t opts) = effects st @ [Settled t (Throws e)])" by blast
  fix r
  from whole show "addChainResults (run_job st (AddChainAfterReady t opts r)) = addChainResults st"
    by blast
  from whole show "\<exists>e. effects (run_job st (AddChainAfterReady t opts r)) =
            effects st @ [Settled t (Throws e)]" by blast
next
  fix p s
  assume a: "instance st = Ready \<and> is_string (chainSpec opts) \<and>
      sanitizeMaxPendingRequests (jsonRpcMaxPendingRequests opts) = Inr p \<and>
      sanitizeMaxSubscriptions (jsonRpcMaxSubscriptions opts) = Inr s"
  then have acc: "addChain_body st t opts =
     (if databaseContent opts \<noteq> JUndefined \<and> \<not> is_string (databaseContent opts)
      then Inl (AddChainError ''`databaseContent` is not a string'')
      else Inr (perform
        [InstanceAddChain (the_string (chainSpec opts)) (the_string (databaseContent opts))
           (potentialRelayChainsIds st opts) (truthy (disableJsonRpc opts)) p s]
        (st\<lparr>addChainResults := addChainResults st @ [(t, opts)]\<rparr>)))"
    by (intro addChain_body_accepts) simp_all
  {
    assume "databaseContent opts \<noteq> JUndefined \<and> \<not> is_string (databaseContent opts)"
    with acc show "addChain_body st t opts =
        Inl (AddChainError ''`databaseContent` is not a string'')"
      by simp
  }
  {
    assume "databaseContent opts = JUndefined"
    with acc show "addChain_body st t opts = Inr (perform
           [InstanceAddChain (the_string (chainSpec opts)) []
              (potentialRelayChainsIds st opts) (truthy (disableJsonRpc opts)) p s]
           (st\<lparr>addChainResults := addChainResults st @ [(t, opts)]\<rparr>))"
      by simp
  }
  fix db
  assume "databaseContent opts = JString db"
  with acc show "addChain_body st t opts = Inr (perform
           [InstanceAddChain (the_string (chainSpec opts)) db
              (potentialRelayChainsIds st opts) (truthy (disableJsonRpc opts)) p s]
           (st\<lparr>addChainResults := addChainResults st @ [(t, opts)]\<rparr>))"
    by simp
next
  fix st' assume i: "addChain_body st t opts = Inr st'"
  from addChain_body_command [OF i]
  show "databaseContent opts = JUndefined \<or> is_string (databaseContent opts)" by blast
  from addChain_body_command [OF i]
  show "\<exists>spec ids dis p s. effects st' = effects st @
         [InstanceAddChain spec (the_string (databaseContent opts)) ids dis p s]"
    by (auto simp add: perform_def)
qed

theorem addChain_databaseContent_witness:
  "addChain_body ready_state 1 ((plain_options (JString ''X''))\<lparr>databaseContent := JNull\<rparr>) =
     Inl (AddChainError ''`databaseContent` is not a string'') \<and>
   addChain_body ready_state 1
      ((plain_options (JString ''X''))\<lparr>databaseContent := JNumber (Finite 5)\<rparr>) =
     Inl (AddChainError ''`databaseContent` is not a string'') \<and>
   effects (addChain ready_state 1
      ((plain_options (JString ''X''))\<lparr>databaseContent := JNumber (Finite 5)\<rparr>)) =
     effects ready_state @
       [Settled 1 (Throws (AddChainError ''`databaseContent` is not a string''))] \<and>
   (\<exists>st'. addChain_body ready_state 1 (plain_options (JString ''X'')) = Inr st' \<and>
      effects st' = effects ready_state @
        [InstanceAddChain ''X'' [] [] False (Finite 4294967295) (Finite 4294967295)]) \<and>
   (\<exists>st'. addChain_body ready_state 1
        ((plain_options (JString ''X''))\<lparr>databaseContent := JString ''db''\<rparr>) = Inr st' \<and>
      effects st' = effects ready_state @
        [InstanceAddChain ''X'' ''db'' [] False (Finite 4294967295) (Finite 4294967295)])"
proof -
  let ?X = "plain_options (JString ''X'')"
  note rule = addChain_databaseContent [where st = ready_state and t = 1]
  have s: "sanitizeMaxPendingRequests None = Inr (Finite 4294967295)"
    "sanitizeMaxSubscriptions None = Inr (Finite 4294967295)"
    by (simp_all add: sanitizeMaxPendingRequests_def sanitizeMaxSubscriptions_def)
  have 1: "addChain_body ready_state 1 (?X\<lparr>databaseContent := JNull\<rparr>) =
     Inl (AddChainError ''`databaseContent` is not a string'')"
    using rule [where opts = "?X\<lparr>databaseContent := JNull\<rparr>"]
    by (simp add: instance_ready_state plain_options_def s)
  have 2: "addChain_body ready_state 1 (?X\<lparr>databaseContent := JNumber (Finite 5)\<rparr>) =
     Inl (AddChainError ''`databaseContent` is not a string'')"
    using rule [where opts = "?X\<lparr>databaseContent := JNumber (Finite 5)\<rparr>"]
    by (simp add: instance_ready_state plain_options_def s)
  then have 3: "effects (addChain ready_state 1 (?X\<lparr>databaseContent := JNumber (Finite 5)\<rparr>)) =
     effects ready_state @
       [Settled 1 (Throws (AddChainError ''`databaseContent` is not a string''))]"
    by (simp add: addChain_def addChain_from_ready_def instance_ready_state settle_def perform_def)
  have 4: "\<exists>st'. addChain_body ready_state 1 ?X = Inr st' \<and>
      effects st' = effects ready_state @
        [InstanceAddChain ''X'' [] [] False (Finite 4294967295) (Finite 4294967295)]"
    using rule [where opts = ?X]
    by (simp add: instance_ready_state plain_options_def s potentialRelayChainsIds_def
        perform_def)
  have 5: "\<exists>st'. addChain_body ready_state 1 (?X\<lparr>databaseContent := JString ''db''\<rparr>) = Inr st' \<and>
      effects st' = effects ready_state @
        [InstanceAddChain ''X'' ''db'' [] False (Finite 4294967295) (Finite 4294967295)]"
    using rule [where opts = "?X\<lparr>databaseContent := JString ''db''\<rparr>"]
    by (simp add: instance_ready_state plain_options_def s potentialRelayChainsIds_def
        perform_def)
  from 1 2 3 4 5 show ?thesis by blast
qed

subsection \<open>Relay chains\<close>

lemma relayChainsLoop_filter:
  "relayChainsLoop ids cs = map (\<lambda>c. the (ids c)) (filter (\<lambda>c. ids c \<noteq> None) cs)"
  by (induction cs) (auto split: option.splits)

lemma addChain_body_Inl_relay:
  "addChain_body st t (opts\<lparr>potentialRelayChains := cs\<rparr>) = Inl e \<longleftrightarrow>
   addChain_body st t opts = Inl e"
proof (cases "instance st = Ready")
  case True
  then show ?thesis
    by (simp add: addChain_body_Ready split: option.splits)
next
  case False
  then show ?thesis
    by (cases "instance st") (simp_all add: addChain_body_def)
qed

lemma one_chain_state_fields:
  "instance one_chain_state = Ready"
  "chainIds one_chain_state = [0 \<mapsto> 7]"
  "chains one_chain_state = [(7, [])]"
  "addChainResults one_chain_state = []"
  "jobs one_chain_state = []"
  "effects one_chain_state =
     [InstanceAddChain ''X'' [] [] False (Finite 4294967295) (Finite 4294967295),
      Settled 1 (ReturnsChain \<lparr>self = 0, chainId = 7, options = plain_options (JString ''X'')\<rparr>)]"
  by (simp_all add: one_chain_state_def ready_state_def start_def instance_started_def
      settle_whenReady_def schedule_def addChain_def addChain_from_ready_def
      addChain_body_Ready valid_options_def plain_options_def u32_max_def perform_def
      potentialRelayChainsIds_def addChain_resume_def settle_def)

text \<open>
  Claim C6.  The list of relay chain ids that \<open>addChain\<close> computes holds, in order, the
  id of each entry of \<open>options.potentialRelayChains\<close> that the \<open>WeakMap\<close> \<open>chainIds\<close> maps
  to an id, and nothing for an entry that it does not map (such as a chain that has been
  removed); this is the list the command to the engine carries.  The entries never make
  the call fail: it throws an error exactly when it would throw that error with no relay
  chains at all.
\<close>

theorem relay_chains_dropped:
  "potentialRelayChainsIds st opts =
     (case potentialRelayChains opts of
        None \<Rightarrow> []
      | Some cs \<Rightarrow> map (\<lambda>c. the (chainIds st c)) (filter (\<lambda>c. chainIds st c \<noteq> None) cs)) \<and>
   (\<forall>e. addChain_body st t opts = Inl e \<longleftrightarrow>
        addChain_body st t (opts\<lparr>potentialRelayChains := None\<rparr>) = Inl e) \<and>
   (instance st = Ready \<and> valid_options opts \<longrightarrow>
      (\<exists>spec db dis p s st'. addChain_body st t opts = Inr st' \<and>
         effects st' = effects st @
           [InstanceAddChain spec db (potentialRelayChainsIds st opts) dis p s]))"
proof (intro conjI impI allI)
  show "potentialRelayChainsIds st opts =
     (case potentialRelayChains opts of
        None \<Rightarrow> []
      | Some cs \<Rightarrow> map (\<lambda>c. the (chainIds st c)) (filter (\<lambda>c. chainIds st c \<noteq> None) cs))"
    by (simp add: potentialRelayChainsIds_def relayChainsLoop_filter split: option.splits)
next
  fix e
  show "addChain_body st t opts = Inl e \<longleftrightarrow>
        addChain_body st t (opts\<lparr>potentialRelayChains := None\<rparr>) = Inl e"
    by (simp add: addChain_body_Inl_relay)
next
  assume "instance st = Ready \<and> valid_options opts"
  then obtain p s where "addChain_body st t opts = Inr (perform
        [InstanceAddChain (the_string (chainSpec opts)) (the_string (databaseContent opts))
           (potentialRelayChainsIds st opts) (truthy (disableJsonRpc opts))
           (Finite (of_int p)) (Finite (of_int s))]
        (st\<lparr>addChainResults := addChainResults st @ [(t, opts)]\<rparr>))"
    using addChain_body_valid[of st opts t] by blast
  then show "\<exists>spec db dis p s st'. addChain_body st t opts = Inr st' \<and>
         effects st' = effects st @
           [InstanceAddChain spec db (potentialRelayChainsIds st opts) dis p s]"
    by (simp add: perform_def)
qed

theorem relay_chains_dropped_witness:
  "potentialRelayChainsIds one_chain_state
      ((plain_options (JString ''Y''))\<lparr>potentialRelayChains := Some [0, 5]\<rparr>) = [7] \<and>
   (\<exists>spec db dis p s st'.
      addChain_body one_chain_state 2
        ((plain_options (JString ''Y''))\<lparr>potentialRelayChains := Some [0, 5]\<rparr>) = Inr st' \<and>
      effects st' = effects one_chain_state @ [InstanceAddChain spec db [7] dis p s])"
proof -
  let ?opts = "(plain_options (JString ''Y''))\<lparr>potentialRelayChains := Some [0, 5]\<rparr>"
  note dropped = relay_chains_dropped [of one_chain_state ?opts 2]
  have ids: "potentialRelayChainsIds one_chain_state ?opts = [7]"
    using dropped by (simp add: one_chain_state_fields plain_options_def)
  have "instance one_chain_state = Ready \<and> valid_options ?opts"
    by (simp add: one_chain_state_fields plain_options_def valid_options_def)
  with dropped have "\<exists>spec db dis p s st'. addChain_body one_chain_state 2 ?opts = Inr st' \<and>
      effects st' = effects one_chain_state @
        [InstanceAddChain spec db (potentialRelayChainsIds one_chain_state ?opts) dis p s]"
    by blast
  with ids show ?thesis by simp
qed

subsection \<open>The ledger of pending \<open>addChain\<close> calls\<close>

lemma run_append: "run st (as @ bs) = run (run st as) bs"
  by (induction as arbitrary: st) simp_all

lemma step_CallAddChain_valid:
  assumes "instance st = Ready" and "valid_options opts"
  shows "step st (CallAddChain t opts) =
     perform [create_chain_command st opts]
       (st\<lparr>addChainResults := addChainResults st @ [(t, opts)]\<rparr>)"
proof -
  from addChain_body_valid[OF assms, of t] obtain p s where
    "spec_limit 1 (jsonRpcMaxPendingRequests opts) = Some p"
    "spec_limit 0 (jsonRpcMaxSubscriptions opts) = Some s"
    "addChain_body st t opts = Inr (perform
        [InstanceAddChain (the_string (chainSpec opts)) (the_string (databaseContent opts))
           (potentialRelayChainsIds st opts) (truthy (disableJsonRpc opts))
           (Finite (of_int p)) (Finite (of_int s))]
        (st\<lparr>addChainResults := addChainResults st @ [(t, opts)]\<rparr>))"
    by blast
  with assms(1) show ?thesis
    by (simp add: addChain_def addChain_from_ready_def create_chain_command_def)
qed

lemma create_chain_command_cong:
  "chainIds st' = chainIds st \<Longrightarrow> create_chain_command st' opts = create_chain_command st opts"
  by (simp add: create_chain_command_def potentialRelayChainsIds_def split: option.splits)

lemma run_calls:
  assumes "instance st = Ready" and "\<forall>c \<in> set calls. valid_options (snd c)"
  shows "instance (run st (map (\<lambda>(t, opts). CallAddChain t opts) calls)) = Ready \<and>
    chainIds (run st (map (\<lambda>(t, opts). CallAddChain t opts) calls)) = chainIds st \<and>
    addChainResults (run st (map (\<lambda>(t, opts). CallAddChain t opts) calls)) =
      addChainResults st @ calls \<and>
    jobs (run st (map (\<lambda>(t, opts). CallAddChain t opts) calls)) = jobs st \<and>
    effects (run st (map (\<lambda>(t, opts). CallAddChain t opts) calls)) =
      effects st @ map (\<lambda>(t, opts). create_chain_command st opts) calls"
  using assms
proof (induction calls arbitrary: st)
  case Nil
  then show ?case by simp
next
  case (Cons c calls)
  obtain t opts where c: "c = (t, opts)" by (cases c)
  let ?st = "step st (CallAddChain t opts)"
  from Cons.prems c have v: "valid_options opts" by simp
  have st: "?st = perform [create_chain_command st opts]
       (st\<lparr>addChainResults := addChainResults st @ [(t, opts)]\<rparr>)"
    using Cons.prems(1) v by (rule step_CallAddChain_valid)
  have r: "instance ?st = Ready" and ids: "chainIds ?st = chainIds st"
    using Cons.prems(1) unfolding st by (simp_all add: perform_def)
  from Cons.prems have "\<forall>c \<in> set calls. valid_options (snd c)" by simp
  from Cons.IH[OF r this] show ?case
    unfolding c list.map prod.case run.simps create_chain_command_cong[OF ids] ids
    unfolding st by (simp add: perform_def)
qed

lemma run_outcomes:
  assumes "length outs \<le> length (addChainResults st)"
  shows "jobs (run st (map (\<lambda>out. Emit (AddChainResult out)) outs)) =
      jobs st @ map2 (\<lambda>(t, opts) out. AddChainAfterOutcome t opts out) (addChainResults st) outs \<and>
    addChainResults (run st (map (\<lambda>out. Emit (AddChainResult out)) outs)) =
      drop (length outs) (addChainResults st) \<and>
    effects (run st (map (\<lambda>out. Emit (AddChainResult out)) outs)) = effects st"
  using assms
proof (induction outs arbitrary: st)
  case Nil
  then show ?case by simp
next
  case (Cons out outs)
  then obtain t opts rest where l: "addChainResults st = (t, opts) # rest"
    by (cases "addChainResults st") auto
  let ?st = "step st (Emit (AddChainResult out))"
  have st: "?st = schedule [AddChainAfterOutcome t opts out] (st\<lparr>addChainResults := rest\<rparr>)"
    by (simp add: l)
  from Cons.prems l have "length outs \<le> length (addChainResults ?st)"
    by (simp add: st schedule_def)
  from Cons.IH[OF this] show ?case
    unfolding list.map run.simps
    unfolding st by (simp add: l schedule_def)
qed

lemma map_filter_append:
  "List.map_filter f (xs @ ys) = List.map_filter f xs @ List.map_filter f ys"
  by (simp add: List.map_filter_def)

lemma map_filter_Cons:
  "List.map_filter f (x # xs) =
     (case f x of None \<Rightarrow> List.map_filter f xs | Some y \<Rightarrow> y # List.map_filter f xs)"
  by (simp add: List.map_filter_def split: option.splits)

lemma map_filter_Nil: "List.map_filter f [] = []"
  by (simp add: List.map_filter_def)

lemma matched_addChain_resume:
  "matched (addChain_resume st t opts out) =
     List.map_filter outcome_settled (effects st)
       @ (t, out) # List.map_filter outcome_scheduled (jobs st)"
  by (cases out)
     (simp_all add: matched_def addChain_resume_def settle_def perform_def Let_def
       map_filter_append map_filter_Cons map_filter_Nil)

text \<open>Outcome events and runs of continuations, in any order.\<close>

lemma run_deliveries:
  assumes "list_all outcome_job (jobs st)" and "list_all delivers acts"
    and "length (delivered acts) \<le> length (addChainResults st)"
  shows "matched (run st acts) =
      matched st @ map2 (\<lambda>(t, opts) out. (t, out)) (addChainResults st) (delivered acts) \<and>
    addChainResults (run st acts) = drop (length (delivered acts)) (addChainResults st)"
  using assms
proof (induction acts arbitrary: st)
  case Nil
  then show ?case by simp
next
  case (Cons a acts)
  note IH = Cons.IH and prems = Cons.prems
  from prems(2) have d: "delivers a" and ds: "list_all delivers acts" by simp_all
  from d consider (emit) out where "a = Emit (AddChainResult out)" | (job) "a = RunJob"
    by (cases a rule: delivers.cases) simp_all
  then show ?case
  proof cases
    case emit
    with prems(3) obtain t opts rest where l: "addChainResults st = (t, opts) # rest"
      by (cases "addChainResults st") auto
    let ?s = "step st a"
    have s: "?s = schedule [AddChainAfterOutcome t opts out] (st\<lparr>addChainResults := rest\<rparr>)"
      using emit l by simp
    have j: "list_all outcome_job (jobs ?s)"
      unfolding s using prems(1) by (simp add: schedule_def)
    have n: "length (delivered acts) \<le> length (addChainResults ?s)"
      unfolding s using prems(3) emit l by (simp add: schedule_def)
    have m: "matched ?s = matched st @ [(t, out)]"
      unfolding s
      by (simp add: matched_def schedule_def map_filter_append map_filter_Cons map_filter_Nil)
    have r: "addChainResults ?s = rest" unfolding s by (simp add: schedule_def)
    from IH[OF j ds n] show ?thesis
      unfolding run.simps m r using emit l by simp
  next
    case job
    show ?thesis
    proof (cases "jobs st")
      case Nil
      then have "step st a = st" using job by simp
      with IH[OF prems(1) ds] prems(3) job show ?thesis by simp
    next
      case (Cons j js)
      with prems(1) obtain t opts out where jj: "j = AddChainAfterOutcome t opts out"
        by (cases j) simp_all
      let ?s = "step st a"
      have s: "?s = addChain_resume (st\<lparr>jobs := js\<rparr>) t opts out"
        using job Cons jj by simp
      have j': "list_all outcome_job (jobs ?s)"
        unfolding s using prems(1) Cons
        by (cases out) (simp_all add: addChain_resume_def settle_def perform_def Let_def)
      have r: "addChainResults ?s = addChainResults st"
        unfolding s
        by (cases out) (simp_all add: addChain_resume_def settle_def perform_def Let_def)
      have m: "matched ?s = matched st"
        unfolding s matched_addChain_resume using Cons jj
        by (simp add: matched_def map_filter_Cons)
      from prems(3) job have n: "length (delivered acts) \<le> length (addChainResults ?s)"
        unfolding r by simp
      from IH[OF j' ds n] show ?thesis unfolding run.simps m r using job by simp
    qed
  qed
qed

lemma matched_run_calls:
  assumes "instance st = Ready" and "\<forall>c \<in> set calls. valid_options (snd c)"
  shows "matched (run st (map (\<lambda>(t, opts). CallAddChain t opts) calls)) = matched st"
proof -
  have "List.map_filter outcome_settled (map (\<lambda>(t, opts). create_chain_command st opts) calls) = []"
    by (induction calls) (auto simp add: map_filter_Nil map_filter_Cons create_chain_command_def)
  with run_calls[OF assms] show ?thesis
    by (simp add: matched_def map_filter_append)
qed

text \<open>
  Claim C1.  Let \<open>addChain\<close> be called any number of times on a ready client, with
  options for which the command is issued, and let the instance then deliver outcomes, at
  most as many as there are pending calls.  Then the calls are in the ledger, after those
  that were pending before, in the order in which they were made, which is also the order
  of their commands; and the outcomes resolve the ledger from its oldest entry on: the
  \<open>k\<close>-th outcome is handed to the call that has the \<open>k\<close>-th place in the ledger, whatever the
  outcome says (the chain id in it plays no role), and the calls left in the ledger are
  those beyond the number of outcomes.  The timing plays no role either: however the
  outcome events and the runs of the scheduled continuations follow each other, the calls
  that have got an outcome, resumed or not, are the first calls of the ledger, each with
  the outcome of its rank.
\<close>

theorem addChain_results_fifo:
  assumes "instance st = Ready"
    and "\<forall>c \<in> set calls. valid_options (snd c)"
    and "length outs \<le> length (addChainResults st) + length calls"
  shows
    "addChainResults (run st (map (\<lambda>(t, opts). CallAddChain t opts) calls)) =
       addChainResults st @ calls \<and>
     effects (run st (map (\<lambda>(t, opts). CallAddChain t opts) calls)) =
       effects st @ map (\<lambda>(t, opts). create_chain_command st opts) calls \<and>
     jobs (run st (map (\<lambda>(t, opts). CallAddChain t opts) calls
                   @ map (\<lambda>out. Emit (AddChainResult out)) outs)) =
       jobs st @ map2 (\<lambda>(t, opts) out. AddChainAfterOutcome t opts out)
                  (addChainResults st @ calls) outs \<and>
     addChainResults (run st (map (\<lambda>(t, opts). CallAddChain t opts) calls
                              @ map (\<lambda>out. Emit (AddChainResult out)) outs)) =
       drop (length outs) (addChainResults st @ calls) \<and>
     (\<forall>acts. list_all outcome_job (jobs st) \<and> list_all delivers acts \<and> delivered acts = outs \<longrightarrow>
        matched (run st (map (\<lambda>(t, opts). CallAddChain t opts) calls @ acts)) =
          matched st @ map2 (\<lambda>(t, opts) out. (t, out)) (addChainResults st @ calls) outs)"
proof -
  let ?st = "run st (map (\<lambda>(t, opts). CallAddChain t opts) calls)"
  note calls = run_calls [OF assms(1,2)]
  from assms(3) calls have l: "length outs \<le> length (addChainResults ?st)" by simp
  have timing: "\<forall>acts. list_all outcome_job (jobs st) \<and> list_all delivers acts \<and>
      delivered acts = outs \<longrightarrow>
        matched (run st (map (\<lambda>(t, opts). CallAddChain t opts) calls @ acts)) =
          matched st @ map2 (\<lambda>(t, opts) out. (t, out)) (addChainResults st @ calls) outs"
  proof (intro allI impI)
    fix acts
    assume a: "list_all outcome_job (jobs st) \<and> list_all delivers acts \<and> delivered acts = outs"
    with calls have j: "list_all outcome_job (jobs ?st)" by simp
    from a have d: "list_all delivers acts" by simp
    from a l have n: "length (delivered acts) \<le> length (addChainResults ?st)" by simp
    from run_deliveries [OF j d n] a calls matched_run_calls [OF assms(1,2)]
    show "matched (run st (map (\<lambda>(t, opts). CallAddChain t opts) calls @ acts)) =
        matched st @ map2 (\<lambda>(t, opts) out. (t, out)) (addChainResults st @ calls) outs"
      by (simp add: run_append)
  qed
  from run_outcomes [OF l] calls timing show ?thesis
    by (simp add: run_append)
qed

theorem addChain_results_fifo_witness:
  "jobs (run ready_state
      [CallAddChain 1 (plain_options (JString ''A'')),
       CallAddChain 2 (plain_options (JString ''B'')),
       Emit (AddChainResult (Success 9)), Emit (AddChainResult (Failure ''no''))]) =
     [AddChainAfterOutcome 1 (plain_options (JString ''A'')) (Success 9),
      AddChainAfterOutcome 2 (plain_options (JString ''B'')) (Failure ''no'')] \<and>
   addChainResults (run ready_state
      [CallAddChain 1 (plain_options (JString ''A'')),
       CallAddChain 2 (plain_options (JString ''B'')),
       Emit (AddChainResult (Success 9)), Emit (AddChainResult (Failure ''no''))]) = [] \<and>
   matched (run ready_state
      [CallAddChain 1 (plain_options (JString ''A'')),
       CallAddChain 2 (plain_options (JString ''B'')),
       Emit (AddChainResult (Success 9)), RunJob, Emit (AddChainResult (Failure ''no''))]) =
     [(1, Success 9), (2, Failure ''no'')]"
proof -
  have r: "instance ready_state = Ready" by (rule instance_ready_state)
  have v: "\<forall>c \<in> set [(1, plain_options (JString ''A'')), (2, plain_options (JString ''B''))].
      valid_options (snd c)"
    by (simp add: valid_options_def plain_options_def)
  have e: "addChainResults ready_state = [] \<and> jobs ready_state = [] \<and> effects ready_state = []"
    by (simp add: ready_state_def start_def instance_started_def settle_whenReady_def
        schedule_def)
  then have l: "length [Success 9, Failure ''no''] \<le> length (addChainResults ready_state)
      + length [(1::nat, plain_options (JString ''A'')), (2, plain_options (JString ''B''))]"
    by simp
  note fifo = addChain_results_fifo [OF r v l]
  have t: "list_all outcome_job (jobs ready_state) \<and>
      list_all delivers [Emit (AddChainResult (Success 9)), RunJob,
        Emit (AddChainResult (Failure ''no''))] \<and>
      delivered [Emit (AddChainResult (Success 9)), RunJob,
        Emit (AddChainResult (Failure ''no''))] = [Success 9, Failure ''no'']"
    using e by simp
  from fifo t have "matched (run ready_state
      (map (\<lambda>(t, opts). CallAddChain t opts)
          [(1, plain_options (JString ''A'')), (2, plain_options (JString ''B''))]
        @ [Emit (AddChainResult (Success 9)), RunJob, Emit (AddChainResult (Failure ''no''))])) =
      matched ready_state @ map2 (\<lambda>(t, opts) out. (t, out))
        (addChainResults ready_state
          @ [(1, plain_options (JString ''A'')), (2, plain_options (JString ''B''))])
        [Success 9, Failure ''no'']"
    by blast
  with fifo e show ?thesis
    by (simp add: matched_def map_filter_Nil del: run.simps step.simps)
qed

subsection \<open>The status of the instance along an execution\<close>

lemma instance_perform [simp]: "instance (perform es st) = instance st"
  by (simp add: perform_def)
lemma instance_schedule [simp]: "instance (schedule js st) = instance st"
  by (simp add: schedule_def)
lemma instance_settle [simp]: "instance (settle t r st) = instance st"
  by (simp add: settle_def)

lemma instance_await_ready [simp]: "instance (await_ready w st) = instance st"
  by (simp add: await_ready_def split: ready_promise.splits)

lemma instance_addChain_from_ready [simp]: "instance (addChain_from_ready st t opts) = instance st"
proof (cases "addChain_body st t opts")
  case (Inl e)
  then show ?thesis by (simp add: addChain_from_ready_def)
next
  case (Inr st')
  then have "instance st = Ready \<and> valid_options opts" by (rule addChain_body_Inr_valid)
  from addChain_body_valid[of st opts t] this Inr show ?thesis
    by (auto simp add: addChain_from_ready_def)
qed

lemma instance_addChain [simp]: "instance (addChain st t opts) = instance st"
  by (simp add: addChain_def)

lemma instance_addChain_resume [simp]: "instance (addChain_resume st t opts out) = instance st"
  by (simp add: addChain_resume_def Let_def split: outcome.splits)

lemma instance_sendJsonRpc [simp]: "instance (snd (sendJsonRpc st h request retVal)) = instance st"
  by (simp add: sendJsonRpc_def Let_def split: instance_status.splits)

lemma instance_await_wake [simp]: "instance (await_wake st t h) = instance st"
  by (simp add: await_wake_def split: option.splits)

lemma instance_peek [simp]: "instance (snd (peekJsonRpcResponse st cid)) = instance st"
  by (simp add: peekJsonRpcResponse_def split: list.splits)

lemma instance_nextJsonRpcResponse [simp]: "instance (nextJsonRpcResponse st t h) = instance st"
  by (simp add: nextJsonRpcResponse_def peekJsonRpcResponse_def
      split: instance_status.splits list.splits prod.splits option.splits)

lemma instance_remove [simp]: "instance (keep st (remove st h)) = instance st"
  by (simp add: remove_def split: instance_status.splits option.splits)

lemma instance_terminate_from_ready [simp]: "instance (terminate_from_ready st t) = instance st"
  by (simp add: terminate_from_ready_def terminate_body_def split: instance_status.splits)

lemma instance_terminate [simp]: "instance (terminate st t) = instance st"
  by (simp add: terminate_def)

lemma instance_reset_connections [simp]: "instance (reset_connections st) = instance st"
  by (simp add: reset_connections_def)
lemma instance_fail_addChainResults [simp]: "instance (fail_addChainResults m st) = instance st"
  by (simp add: fail_addChainResults_def)
lemma instance_wake_chains [simp]: "instance (wake_chains st) = instance st"
  by (simp add: wake_chains_def)
lemma instance_call_on [simp]: "instance (call_onExecutorShutdownOrWasmPanic st) = instance st"
  by (simp add: call_onExecutorShutdownOrWasmPanic_def split: option.splits)

lemma instance_terminate_resume:
  "instance (terminate_resume st t) =
     (if instance st = Ready then Destroyed AlreadyDestroyedError else instance st)"
  by (simp add: terminate_resume_def)

lemma instance_on_connection:
  "(\<And>c s. instance (f c s) = instance s) \<Longrightarrow> instance (keep st (on_connection st i f)) = instance st"
  by (simp add: on_connection_def split: option.splits)

lemma instance_eventCallback:
  "instance (keep st (eventCallback st ev)) =
     (case ev of WasmPanic m ct \<Rightarrow> Destroyed (CrashError m) | _ \<Rightarrow> instance st)"
  by (cases ev) (simp_all add: instance_on_connection split: list.splits option.splits)

lemma instance_onConnectionReset [simp]:
  "instance (keep st (onConnectionReset st i m)) = instance st"
  by (simp add: onConnectionReset_def)

lemma instance_settle_whenReady [simp]: "instance (settle_whenReady r st) = instance st"
  by (simp add: settle_whenReady_def split: ready_promise.splits)

lemma instance_instance_started:
  "instance (instance_started st) = (case instance st of Destroyed e \<Rightarrow> Destroyed e | _ \<Rightarrow> Ready)"
  by (simp add: instance_started_def split: instance_status.splits)

lemma instance_run_job:
  "instance (run_job st j) =
     (case j of
        TerminateAfterShutdown t \<Rightarrow>
          if instance st = Ready then Destroyed AlreadyDestroyedError else instance st
      | _ \<Rightarrow> instance st)"
  by (cases "(st, j)" rule: run_job.cases) (simp_all add: instance_terminate_resume)


lemma instance_step:
  "instance (step st a) =
     (case a of
        Emit (WasmPanic m ct) \<Rightarrow> Destroyed (CrashError m)
      | InstanceStarted \<Rightarrow>
          (case whenReady st of
             Pending ws \<Rightarrow> (case instance st of Destroyed e \<Rightarrow> Destroyed e | _ \<Rightarrow> Ready)
           | _ \<Rightarrow> instance st)
      | RunJob \<Rightarrow>
          (case jobs st of
             TerminateAfterShutdown t # js \<Rightarrow>
               if instance st = Ready then Destroyed AlreadyDestroyedError else instance st
           | _ \<Rightarrow> instance st)
      | _ \<Rightarrow> instance st)"
proof (cases a)
  case (Emit ev)
  then show ?thesis by (cases ev) (simp_all add: instance_eventCallback del: eventCallback.simps)
next
  case InstanceStarted
  then show ?thesis by (simp add: instance_instance_started split: ready_promise.splits)
next
  case RunJob
  then show ?thesis by (simp add: instance_run_job split: list.splits job.splits)
qed simp_all


lemma step_Destroyed:
  assumes "instance st = Destroyed e"
  shows "instance (step st a) = Destroyed e \<or>
    (\<exists>m ct. a = Emit (WasmPanic m ct) \<and> instance (step st a) = Destroyed (CrashError m))"
  using assms
  by (simp add: instance_step del: step.simps
      split: action.splits event.splits ready_promise.splits list.splits job.splits)

lemma step_Destroyed_no_crash:
  assumes "instance st = Destroyed e" and "\<not> is_crash a"
  shows "instance (step st a) = Destroyed e"
  using step_Destroyed[OF assms(1), of a] assms(2) by auto

lemma run_Destroyed_no_crash:
  assumes "instance st = Destroyed e" and "\<not> list_ex is_crash acts"
  shows "instance (run st acts) = Destroyed e"
  using assms
proof (induction acts arbitrary: st)
  case Nil
  then show ?case by simp
next
  case (Cons a acts)
  then have "instance (step st a) = Destroyed e"
    by (simp add: step_Destroyed_no_crash del: step.simps)
  with Cons show ?case by (simp del: step.simps)
qed

lemma run_Destroyed:
  assumes "instance st = Destroyed e"
  shows "\<exists>e'. instance (run st acts) = Destroyed e'"
  using assms
proof (induction acts arbitrary: st e)
  case Nil
  then show ?case by simp
next
  case (Cons a acts)
  from step_Destroyed[OF Cons.prems, of a] obtain e' where "instance (step st a) = Destroyed e'"
    by blast
  from Cons.IH[OF this] show ?case by (simp del: step.simps)
qed

lemma step_crash: "instance (step st (Emit (WasmPanic m ct))) = Destroyed (CrashError m)"
  by (simp add: instance_step del: step.simps)

lemma step_NotReady:
  assumes "instance (step st a) = NotReady"
  shows "instance st = NotReady"
  using assms
  by (simp add: instance_step del: step.simps
      split: action.splits event.splits ready_promise.splits list.splits job.splits
        instance_status.splits if_splits)

lemma step_not_NotCreated:
  assumes "instance st \<noteq> NotCreated"
  shows "instance (step st a) \<noteq> NotCreated"
  using assms
  by (simp add: instance_step del: step.simps
      split: action.splits event.splits ready_promise.splits list.splits job.splits
        instance_status.splits if_splits)

lemma step_terminal:
  assumes "\<forall>e. instance st = Destroyed e \<longrightarrow> terminal e"
  shows "\<forall>e. instance (step st a) = Destroyed e \<longrightarrow> terminal e"
  using assms
  by (auto simp add: instance_step simp del: step.simps
      split: action.splits event.splits ready_promise.splits list.splits job.splits
        instance_status.splits if_splits)


lemma outcome_job_resume_ready [simp]: "\<not> outcome_job (resume_ready r w)"
  by (cases w) simp_all

lemma list_ex_resume_ready [simp]: "\<not> list_ex outcome_job (map (resume_ready r) ws)"
  by (induction ws) simp_all

lemma unused_await_ready: "unused st \<Longrightarrow> unused (await_ready w st)"
  by (simp add: unused_def await_ready_def schedule_def split: ready_promise.splits)

lemma unused_settle_Throws: "unused st \<Longrightarrow> unused (settle t (Throws e) st)"
  by (simp add: unused_def settle_def perform_def)

lemma unused_addChain_from_ready:
  "instance st = NotReady \<Longrightarrow> unused st \<Longrightarrow> unused (addChain_from_ready st t opts)"
  by (simp add: addChain_from_ready_def addChain_body_def unused_settle_Throws)

lemma unused_terminate_from_ready:
  "instance st = NotReady \<Longrightarrow> unused st \<Longrightarrow> unused (terminate_from_ready st t)"
  by (simp add: terminate_from_ready_def terminate_body_def unused_settle_Throws)

lemma unused_nextJsonRpcResponse:
  "unused st \<Longrightarrow> unused (nextJsonRpcResponse st t h)"
  by (simp add: nextJsonRpcResponse_def unused_settle_Throws) (simp add: unused_def)

lemma unused_terminate_resume:
  "instance st = NotReady \<Longrightarrow> unused st \<Longrightarrow> unused (terminate_resume st t)"
  by (simp add: unused_def terminate_resume_def settle_def perform_def wake_chains_def
      fail_addChainResults_def reset_connections_def schedule_def list_ex_iff)
     auto

lemma unused_run_job:
  assumes "instance st = NotReady" and "unused st" and "\<not> outcome_job j"
  shows "unused (run_job st j)"
  using assms
  by (cases "(st, j)" rule: run_job.cases)
     (simp_all add: unused_addChain_from_ready unused_settle_Throws unused_nextJsonRpcResponse
       unused_terminate_from_ready unused_terminate_resume)

lemma unused_on_connection:
  assumes "unused st" and "\<And>c s. unused s \<Longrightarrow> unused (f c s)"
  shows "unused (keep st (on_connection st i f))"
  using assms by (simp add: on_connection_def split: option.splits)

lemma unused_perform:
  "unused st \<Longrightarrow> \<not> list_ex returns_a_chain es \<Longrightarrow> unused (perform es st)"
  by (auto simp add: unused_def perform_def list_ex_iff)

lemma unused_eventCallback:
  assumes "unused st" and "\<forall>m ct. ev \<noteq> WasmPanic m ct"
  shows "unused (keep st (eventCallback st ev))"
proof (cases ev)
  case ExecutorShutdown
  with assms show ?thesis
    by (simp add: unused_def call_onExecutorShutdownOrWasmPanic_def schedule_def
        split: option.splits)
next
  case (Log l tg m)
  with assms show ?thesis by (simp add: unused_perform)
next
  case (AddChainResult out)
  with assms show ?thesis by (simp add: unused_def)
next
  case (JsonRpcResponsesNonEmpty cid)
  with assms show ?thesis by (simp add: unused_def)
next
  case (NewConnection i c)
  with assms show ?thesis by (simp add: unused_def)
next
  case (ConnectionReset i)
  with assms show ?thesis
    by (simp add: on_connection_def unused_def perform_def split: option.splits)
next
  case (ConnectionStreamOpen i)
  with assms show ?thesis
    by (simp add: on_connection_def unused_def perform_def split: option.splits)
next
  case (ConnectionStreamReset i sid)
  with assms show ?thesis
    by (simp add: on_connection_def unused_def perform_def split: option.splits)
next
  case (StreamSend i d sid)
  with assms show ?thesis
    by (simp add: on_connection_def unused_def perform_def split: option.splits)
next
  case (StreamSendClose i sid)
  with assms show ?thesis
    by (simp add: on_connection_def unused_def perform_def split: option.splits)
next
  case (WasmPanic m ct)
  with assms show ?thesis by simp
qed

lemma step_unused:
  assumes "instance st = NotReady" and "unused st" and "instance (step st a) = NotReady"
  shows "unused (step st a)"
proof (cases a)
  case (CallAddChain t opts)
  with assms show ?thesis by (simp add: addChain_def unused_await_ready)
next
  case (CallTerminate t)
  with assms show ?thesis by (simp add: terminate_def unused_await_ready)
next
  case (CallSendJsonRpc h rq rv)
  with assms show ?thesis by (simp add: sendJsonRpc_def)
next
  case (CallNextJsonRpcResponse t h)
  with assms show ?thesis by (simp add: unused_nextJsonRpcResponse)
next
  case (CallRemove h)
  with assms show ?thesis by (simp add: remove_def)
next
  case (Emit ev)
  with assms(3) have "\<forall>m ct. ev \<noteq> WasmPanic m ct"
    by (auto simp add: instance_step simp del: step.simps)
  with assms(2) Emit show ?thesis by (simp add: unused_eventCallback del: eventCallback.simps)
next
  case (PlatformConnectionReset i m)
  with assms show ?thesis by (simp add: onConnectionReset_def)
next
  case InstanceStarted
  with assms show ?thesis
    by (cases "whenReady st") (simp_all add: instance_instance_started)
next
  case (InstanceFailed e)
  with assms show ?thesis
    by (simp add: settle_whenReady_def unused_def schedule_def split: ready_promise.splits)
next
  case RunJob
  show ?thesis
  proof (cases "jobs st")
    case Nil
    with RunJob assms show ?thesis by simp
  next
    case (Cons j js)
    with assms(2) have nj: "\<not> outcome_job j" and u: "unused (st\<lparr>jobs := js\<rparr>)"
      by (simp_all add: unused_def)
    from assms(1) have "instance (st\<lparr>jobs := js\<rparr>) = NotReady" by simp
    from unused_run_job[OF this u nj] RunJob Cons show ?thesis by simp
  qed
next
  case (QueueResponse cid m)
  with assms show ?thesis by (simp add: unused_def)
qed


lemma keyed_Nil [simp]: "keyed []"
  by (simp add: keyed_def)

lemma keyed_map_set:
  "keyed m \<Longrightarrow> list_all (waiter_of k) ws \<Longrightarrow> keyed (map_set m k ws)"
  by (induction m) (auto simp add: keyed_def)

lemma keyed_map_delete: "keyed m \<Longrightarrow> keyed (map_delete m k)"
  by (induction m) (auto simp add: keyed_def)

lemma keyed_map_get:
  "keyed m \<Longrightarrow> map_get m k = Some ws \<Longrightarrow> list_all (waiter_of k) ws"
  by (induction m) (auto simp add: keyed_def split: if_splits)

lemma chains_perform [simp]: "chains (perform es st) = chains st"
  by (simp add: perform_def)
lemma chains_schedule [simp]: "chains (schedule js st) = chains st"
  by (simp add: schedule_def)
lemma chains_settle [simp]: "chains (settle t r st) = chains st"
  by (simp add: settle_def)

lemma chains_await_ready [simp]: "chains (await_ready w st) = chains st"
  by (simp add: await_ready_def split: ready_promise.splits)

lemma chains_addChain_from_ready [simp]: "chains (addChain_from_ready st t opts) = chains st"
proof (cases "addChain_body st t opts")
  case (Inl e)
  then show ?thesis by (simp add: addChain_from_ready_def)
next
  case (Inr st')
  then have "instance st = Ready \<and> valid_options opts" by (rule addChain_body_Inr_valid)
  from addChain_body_valid[of st opts t] this Inr show ?thesis
    by (auto simp add: addChain_from_ready_def)
qed

lemma chains_addChain [simp]: "chains (addChain st t opts) = chains st"
  by (simp add: addChain_def)

lemma chains_terminate_from_ready [simp]: "chains (terminate_from_ready st t) = chains st"
  by (simp add: terminate_from_ready_def terminate_body_def split: instance_status.splits)

lemma chains_terminate [simp]: "chains (terminate st t) = chains st"
  by (simp add: terminate_def)

lemma chains_sendJsonRpc [simp]: "chains (snd (sendJsonRpc st h request retVal)) = chains st"
  by (simp add: sendJsonRpc_def Let_def split: instance_status.splits)

lemma keyed_addChain_resume:
  "keyed (chains st) \<Longrightarrow> keyed (chains (addChain_resume st t opts out))"
  by (simp add: addChain_resume_def Let_def keyed_map_set split: outcome.splits)

lemma keyed_await_wake:
  assumes "keyed (chains st)" and "\<not> truthy (disableJsonRpc (options h))"
  shows "keyed (chains (await_wake st t h))"
proof (cases "map_get (chains st) (chainId h)")
  case None
  with assms show ?thesis by (simp add: await_wake_def)
next
  case (Some ws)
  with assms have "list_all (waiter_of (chainId h)) ws" by (intro keyed_map_get)
  with assms(2) have "list_all (waiter_of (chainId h)) (ws @ [(t, h)])"
    by (simp add: waiter_of_def)
  with assms have "keyed (map_set (chains st) (chainId h) (ws @ [(t, h)]))"
    by (intro keyed_map_set)
  with Some show ?thesis by (simp add: await_wake_def)
qed

lemma chains_peek [simp]: "chains (snd (peekJsonRpcResponse st cid)) = chains st"
  by (simp add: peekJsonRpcResponse_def split: list.splits)

lemma keyed_nextJsonRpcResponse:
  assumes "keyed (chains st)"
  shows "keyed (chains (nextJsonRpcResponse st t h))"
proof (cases "truthy (disableJsonRpc (options h))")
  case True
  with assms show ?thesis by (simp add: nextJsonRpcResponse_def)
next
  case False
  obtain message st' where p: "peekJsonRpcResponse st (chainId h) = (message, st')"
    by (cases "peekJsonRpcResponse st (chainId h)")
  then have "chains st' = chains st" using chains_peek[of st "chainId h"] by simp
  with assms have k: "keyed (chains st')" by simp
  from k False have "keyed (chains (await_wake st' t h))" by (rule keyed_await_wake)
  with assms p k show ?thesis
    by (simp add: nextJsonRpcResponse_def split: instance_status.splits option.splits list.splits)
qed

lemma keyed_remove: "keyed (chains st) \<Longrightarrow> keyed (chains (keep st (remove st h)))"
  by (simp add: remove_def keyed_map_delete split: instance_status.splits option.splits)

lemma keyed_terminate_resume: "keyed (chains (terminate_resume st t))"
  by (simp add: terminate_resume_def wake_chains_def schedule_def)

lemma chains_on_connection:
  "(\<And>c s. chains (f c s) = chains s) \<Longrightarrow> chains (keep st (on_connection st i f)) = chains st"
  by (simp add: on_connection_def split: option.splits)

lemma keyed_eventCallback:
  "keyed (chains st) \<Longrightarrow> keyed (chains (keep st (eventCallback st ev)))"
proof (cases ev)
  case (WasmPanic m ct)
  then show ?thesis
    by (simp add: call_onExecutorShutdownOrWasmPanic_def wake_chains_def schedule_def
        split: option.splits)
next
  case ExecutorShutdown
  assume "keyed (chains st)"
  with ExecutorShutdown show ?thesis
    by (simp add: call_onExecutorShutdownOrWasmPanic_def split: option.splits)
next
  case (AddChainResult out)
  assume "keyed (chains st)"
  with AddChainResult show ?thesis by (simp split: list.splits)
next
  case (JsonRpcResponsesNonEmpty cid)
  assume "keyed (chains st)"
  with JsonRpcResponsesNonEmpty show ?thesis by (simp add: keyed_map_set split: option.splits)
qed (simp_all add: chains_on_connection)

lemma keyed_run_job: "keyed (chains st) \<Longrightarrow> keyed (chains (run_job st j))"
  by (cases "(st, j)" rule: run_job.cases)
     (simp_all add: keyed_addChain_resume keyed_nextJsonRpcResponse keyed_terminate_resume)

lemma step_keyed:
  assumes "keyed (chains st)"
  shows "keyed (chains (step st a))"
proof (cases a)
  case (CallNextJsonRpcResponse t h)
  with assms show ?thesis by (simp add: keyed_nextJsonRpcResponse)
next
  case (CallRemove h)
  with assms show ?thesis by (simp add: keyed_remove)
next
  case (Emit ev)
  with assms show ?thesis by (simp add: keyed_eventCallback del: eventCallback.simps)
next
  case (PlatformConnectionReset i m)
  with assms show ?thesis by (simp add: onConnectionReset_def)
next
  case InstanceStarted
  with assms show ?thesis
    by (simp add: instance_started_def settle_whenReady_def
        split: ready_promise.splits instance_status.splits)
next
  case (InstanceFailed e)
  with assms show ?thesis by (simp add: settle_whenReady_def split: ready_promise.splits)
next
  case RunJob
  with assms show ?thesis
    by (cases "jobs st") (simp_all add: keyed_run_job)
qed (use assms in simp_all)

lemma invariant_start: "invariant start"
  by (simp add: invariant_def start_def unused_def)

lemma invariant_step:
  assumes "invariant st"
  shows "invariant (step st a)"
proof -
  from assms have 1: "instance (step st a) \<noteq> NotCreated"
    unfolding invariant_def by (intro step_not_NotCreated) simp
  from assms have 2: "\<forall>e. instance (step st a) = Destroyed e \<longrightarrow> terminal e"
    unfolding invariant_def by (intro step_terminal) simp
  have 3: "instance (step st a) = NotReady \<longrightarrow> unused (step st a)"
  proof
    assume n: "instance (step st a) = NotReady"
    then have "instance st = NotReady" by (rule step_NotReady)
    with assms n show "unused (step st a)"
      unfolding invariant_def by (intro step_unused) simp_all
  qed
  from assms have 4: "keyed (chains (step st a))"
    unfolding invariant_def by (intro step_keyed) simp
  from 1 2 3 4 show ?thesis unfolding invariant_def by blast
qed

lemma invariant_run: "invariant st \<Longrightarrow> invariant (run st acts)"
  by (induction acts arbitrary: st) (simp_all add: invariant_step del: step.simps)

lemma invariant_reachable: "invariant (run start acts)"
  by (rule invariant_run) (rule invariant_start)

lemma final_error_crash:
  "final_error e (Emit (WasmPanic m ct) # as) = final_error (CrashError m) as"
  by simp

lemma final_error_no_crash: "\<not> is_crash a \<Longrightarrow> final_error e (a # as) = final_error e as"
  by (cases "(e, a # as)" rule: final_error.cases) simp_all

lemma run_final_error:
  assumes "instance st = Destroyed e"
  shows "instance (run st acts) = Destroyed (final_error e acts)"
  using assms
proof (induction acts arbitrary: st e)
  case Nil
  then show ?case by simp
next
  case (Cons a acts)
  show ?case
  proof (cases "is_crash a")
    case True
    then obtain m ct where a: "a = Emit (WasmPanic m ct)"
      by (cases a rule: is_crash.cases) simp_all
    have "instance (step st a) = Destroyed (CrashError m)" unfolding a by (rule step_crash)
    from Cons.IH[OF this] show ?thesis unfolding a by (simp del: step.simps)
  next
    case False
    with Cons.prems have "instance (step st a) = Destroyed e" by (rule step_Destroyed_no_crash)
    from Cons.IH[OF this] False show ?thesis by (simp add: final_error_no_crash del: step.simps)
  qed
qed


lemma terminated_state_fields:
  "instance terminated_state = Destroyed AlreadyDestroyedError"
  "jobs terminated_state = []"
  "onExecutorShutdownOrWasmPanic terminated_state = None"
  "effects terminated_state = [InstanceShutdownExecutor, Settled 1 ReturnsVoid]"
  by (simp_all add: terminated_state_def ready_state_def start_def instance_started_def
      settle_whenReady_def schedule_def terminate_def terminate_from_ready_def
      terminate_body_def perform_def call_onExecutorShutdownOrWasmPanic_def
      terminate_resume_def settle_def wake_chains_def fail_addChainResults_def
      reset_connections_def)


text \<open>
  Claim C3, as amended.  The race: \<open>terminate\<close> is called on a ready client, which leaves
  its \<open>resolve\<close> function in \<open>onExecutorShutdownOrWasmPanic\<close>, and the instance panics
  with message \<open>m\<close> before the call resumes, be it before or after the
  \<open>executor-shutdown\<close> event; the panic schedules the rest of the call, and when that
  rest runs the status is still destroyed with the crash error of \<open>m\<close>, not
  \<open>AlreadyDestroyedError\<close>; the same holds when anything but another crash happens in
  between.  More generally: a crash event always leaves the status destroyed with its
  own crash error, whatever the status was; and from a status destroyed with error \<open>e\<close>,
  the rest of \<open>terminate\<close> keeps \<open>e\<close>, every action that is not a crash event keeps \<open>e\<close>,
  and after every sequence of actions the status is destroyed, with the crash error of
  the last crash event of the sequence, or with \<open>e\<close> when there is none.  So the status
  never returns to a live state, and the terminal error is replaced by crash events and by
  nothing else.
\<close>

theorem terminal_error_kept:
  "(instance st = Ready \<longrightarrow>
      onExecutorShutdownOrWasmPanic (step st (CallTerminate t)) = Some t \<and>
      TerminateAfterShutdown t \<in>
        set (jobs (run st [CallTerminate t, Emit (WasmPanic m ct)])) \<and>
      instance (terminate_resume (run st [CallTerminate t, Emit (WasmPanic m ct)]) t) =
        Destroyed (CrashError m) \<and>
      instance (terminate_resume
          (run st [CallTerminate t, Emit ExecutorShutdown, Emit (WasmPanic m ct)]) t) =
        Destroyed (CrashError m)) \<and>
   (\<not> list_ex is_crash acts \<longrightarrow>
      instance (terminate_resume (run (step st (Emit (WasmPanic m ct))) acts) t) =
        Destroyed (CrashError m)) \<and>
   instance (step st (Emit (WasmPanic m ct))) = Destroyed (CrashError m) \<and>
   (\<forall>e. instance st = Destroyed e \<longrightarrow>
      instance (terminate_resume st t) = Destroyed e \<and>
      (\<not> is_crash a \<longrightarrow> instance (step st a) = Destroyed e) \<and>
      instance (run st acts) = Destroyed (final_error e acts) \<and>
      (\<not> list_ex is_crash acts \<longrightarrow> instance (run st acts) = Destroyed e))"
proof (intro conjI impI allI)
  assume r: "instance st = Ready"
  then show "onExecutorShutdownOrWasmPanic (step st (CallTerminate t)) = Some t"
    by (simp add: terminate_def terminate_from_ready_def terminate_body_def perform_def)
  with r show "TerminateAfterShutdown t \<in>
        set (jobs (run st [CallTerminate t, Emit (WasmPanic m ct)]))"
    by (simp add: call_onExecutorShutdownOrWasmPanic_def wake_chains_def
        fail_addChainResults_def reset_connections_def perform_def schedule_def)
  show "instance (terminate_resume (run st [CallTerminate t, Emit (WasmPanic m ct)]) t) =
        Destroyed (CrashError m)"
    by (simp add: instance_terminate_resume step_crash del: step.simps)
  show "instance (terminate_resume
          (run st [CallTerminate t, Emit ExecutorShutdown, Emit (WasmPanic m ct)]) t) =
        Destroyed (CrashError m)"
    by (simp add: instance_terminate_resume step_crash del: step.simps)
next
  assume "\<not> list_ex is_crash acts"
  with step_crash have "instance (run (step st (Emit (WasmPanic m ct))) acts) =
      Destroyed (CrashError m)"
    by (rule run_Destroyed_no_crash)
  then show "instance (terminate_resume (run (step st (Emit (WasmPanic m ct))) acts) t) =
        Destroyed (CrashError m)"
    by (simp add: instance_terminate_resume)
next
  show "instance (step st (Emit (WasmPanic m ct))) = Destroyed (CrashError m)"
    by (rule step_crash)
next
  fix e assume d: "instance st = Destroyed e"
  then show "instance (terminate_resume st t) = Destroyed e"
    by (simp add: instance_terminate_resume)
  from d show "instance (run st acts) = Destroyed (final_error e acts)"
    by (rule run_final_error)
  {
    assume "\<not> is_crash a"
    with d show "instance (step st a) = Destroyed e" by (rule step_Destroyed_no_crash)
  }
  assume "\<not> list_ex is_crash acts"
  with d show "instance (run st acts) = Destroyed e" by (rule run_Destroyed_no_crash)
qed


theorem terminal_error_kept_witness:
  "instance (terminate_resume
      (run ready_state [CallTerminate 1, Emit (WasmPanic ''boom'' None)]) 1) =
     Destroyed (CrashError ''boom'') \<and>
   instance (terminate_resume
      (run ready_state [CallTerminate 1, Emit ExecutorShutdown, Emit (WasmPanic ''boom'' None)]) 1) =
     Destroyed (CrashError ''boom'') \<and>
   instance (run crashed_state [InstanceStarted, CallTerminate 2, Emit ExecutorShutdown, RunJob]) =
     Destroyed (CrashError ''boom'') \<and>
   instance (run terminated_state
      [CallAddChain 3 (plain_options (JString ''X'')), Emit (WasmPanic ''boom'' None), RunJob,
       Emit (WasmPanic ''bang'' None), InstanceStarted]) =
     Destroyed (CrashError ''bang'')"
proof -
  have n: "\<not> list_ex is_crash [InstanceStarted, CallTerminate 2, Emit ExecutorShutdown, RunJob]"
    by simp
  from terminal_error_kept [of ready_state 1 "''boom''" None]
    terminal_error_kept [of crashed_state 1 "''boom''" None
      "[InstanceStarted, CallTerminate 2, Emit ExecutorShutdown, RunJob]"]
    terminal_error_kept [of terminated_state 1 "''boom''" None
      "[CallAddChain 3 (plain_options (JString ''X'')), Emit (WasmPanic ''boom'' None), RunJob,
        Emit (WasmPanic ''bang'' None), InstanceStarted]"]
    n instance_ready_state instance_crashed_state terminated_state_fields(1)
  show ?thesis by (simp del: run.simps step.simps)
qed


text \<open>The claim as it was stated fails where a crash event finds the status already
  destroyed, with no termination completing: after \<open>terminate\<close> has run to its end
  (nothing is scheduled or pending any more) a panic replaces \<open>AlreadyDestroyedError\<close> by
  its crash error, and a second panic replaces the crash error of the first.\<close>

theorem terminal_error_kept_counterexample:
  "instance terminated_state = Destroyed AlreadyDestroyedError \<and>
   jobs terminated_state = [] \<and>
   onExecutorShutdownOrWasmPanic terminated_state = None \<and>
   effects terminated_state = [InstanceShutdownExecutor, Settled 1 ReturnsVoid] \<and>
   instance (step terminated_state (Emit (WasmPanic ''boom'' None))) =
     Destroyed (CrashError ''boom'') \<and>
   instance (step terminated_state (Emit (WasmPanic ''boom'' None))) \<noteq>
     instance terminated_state \<and>
   instance crashed_state = Destroyed (CrashError ''boom'') \<and>
   instance (step crashed_state (Emit (WasmPanic ''bang'' None))) =
     Destroyed (CrashError ''bang'') \<and>
   instance (step crashed_state (Emit (WasmPanic ''bang'' None))) \<noteq> instance crashed_state"
  by (simp add: terminated_state_fields instance_crashed_state step_crash del: step.simps)

subsection \<open>A call made before the instance has started\<close>

text \<open>As long as the status is \<open>not-ready\<close>, the promise \<open>whenReady\<close> is pending or
  rejected, and no call is about to resume from its fulfilment: a call that does resume
  from it finds the instance ready or destroyed.\<close>

lemma resumes_fulfilled_wake [simp]: "\<not> list_ex resumes_fulfilled (wake ws)"
  by (induction ws) (auto simp add: wake_def)

lemma resumes_fulfilled_failed [simp]:
  "\<not> list_ex resumes_fulfilled (map (resume_ready (Some e)) ws)"
proof (induction ws)
  case Nil
  show ?case by simp
next
  case (Cons w ws)
  then show ?case by (cases w) simp_all
qed

lemma resumes_fulfilled_outcomes [simp]:
  "\<not> list_ex resumes_fulfilled (map (\<lambda>(t, opts). AddChainAfterOutcome t opts out) rs)"
  by (induction rs) auto

lemma resumes_fulfilled_wake_chains [simp]:
  "\<not> list_ex resumes_fulfilled (concat (map (\<lambda>(cid, ws). wake ws) m))"
  by (induction m) (auto simp add: list_ex_append)

lemma initialising_settle: "initialising st \<Longrightarrow> initialising (settle t r st)"
  by (simp add: initialising_def settle_def perform_def)

lemma initialising_perform: "initialising st \<Longrightarrow> initialising (perform es st)"
  by (simp add: initialising_def perform_def)

lemma initialising_await_ready: "initialising st \<Longrightarrow> initialising (await_ready w st)"
  by (cases w) (simp_all add: initialising_def await_ready_def schedule_def list_ex_append
      split: ready_promise.splits)

lemma initialising_nextJsonRpcResponse:
  "instance st = NotReady \<Longrightarrow> initialising st \<Longrightarrow> initialising (nextJsonRpcResponse st t h)"
  by (simp add: nextJsonRpcResponse_def initialising_settle)

lemma initialising_terminate_resume:
  "instance st = NotReady \<Longrightarrow> initialising st \<Longrightarrow> initialising (terminate_resume st t)"
  by (simp add: initialising_def terminate_resume_def settle_def perform_def wake_chains_def
      fail_addChainResults_def reset_connections_def schedule_def list_ex_append)

lemma initialising_addChain_resume:
  "initialising st \<Longrightarrow> initialising (addChain_resume st t opts out)"
  by (cases out) (simp_all add: initialising_def addChain_resume_def settle_def perform_def Let_def)

lemma initialising_run_job:
  assumes "instance st = NotReady" and "initialising st" and "\<not> resumes_fulfilled j"
  shows "initialising (run_job st j)"
  using assms
  by (cases "(st, j)" rule: run_job.cases)
     (simp_all add: initialising_settle initialising_addChain_resume
       initialising_nextJsonRpcResponse initialising_terminate_resume)

lemma initialising_eventCallback:
  assumes "initialising st"
  shows "initialising (keep st (eventCallback st ev))"
  using assms
  by (cases ev)
     (simp_all add: initialising_def call_onExecutorShutdownOrWasmPanic_def wake_chains_def
       fail_addChainResults_def reset_connections_def perform_def schedule_def
       on_connection_def list_ex_append split: option.splits list.splits)

lemma step_initialising:
  assumes "instance st = NotReady" and "initialising st" and "instance (step st a) = NotReady"
  shows "initialising (step st a)"
proof (cases a)
  case (CallAddChain t opts)
  with assms show ?thesis by (simp add: addChain_def initialising_await_ready)
next
  case (CallTerminate t)
  with assms show ?thesis by (simp add: terminate_def initialising_await_ready)
next
  case (CallSendJsonRpc h rq rv)
  with assms show ?thesis by (simp add: sendJsonRpc_def)
next
  case (CallNextJsonRpcResponse t h)
  with assms show ?thesis by (simp add: initialising_nextJsonRpcResponse)
next
  case (CallRemove h)
  with assms show ?thesis by (simp add: remove_def)
next
  case (Emit ev)
  with assms(2) show ?thesis by (simp add: initialising_eventCallback del: eventCallback.simps)
next
  case (PlatformConnectionReset i m)
  with assms show ?thesis by (simp add: onConnectionReset_def)
next
  case InstanceStarted
  with assms show ?thesis
    by (cases "whenReady st") (simp_all add: instance_instance_started)
next
  case (InstanceFailed e)
  with assms show ?thesis
    by (simp add: settle_whenReady_def initialising_def schedule_def list_ex_append
        split: ready_promise.splits)
next
  case RunJob
  show ?thesis
  proof (cases "jobs st")
    case Nil
    with RunJob assms show ?thesis by simp
  next
    case (Cons j js)
    with assms(2) have nj: "\<not> resumes_fulfilled j" and u: "initialising (st\<lparr>jobs := js\<rparr>)"
      by (simp_all add: initialising_def)
    from assms(1) have "instance (st\<lparr>jobs := js\<rparr>) = NotReady" by simp
    from initialising_run_job[OF this u nj] RunJob Cons show ?thesis by simp
  qed
next
  case (QueueResponse cid m)
  with assms show ?thesis by (simp add: initialising_def)
qed

lemma initialising_run:
  assumes "instance st = NotReady \<longrightarrow> initialising st"
  shows "instance (run st acts) = NotReady \<longrightarrow> initialising (run st acts)"
  using assms
proof (induction acts arbitrary: st)
  case Nil
  then show ?case by simp
next
  case (Cons a acts)
  have "instance (step st a) = NotReady \<longrightarrow> initialising (step st a)"
  proof
    assume n: "instance (step st a) = NotReady"
    then have "instance st = NotReady" by (rule step_NotReady)
    with Cons.prems n show "initialising (step st a)" by (intro step_initialising) simp_all
  qed
  from Cons.IH[OF this] show ?case by (simp del: step.simps)
qed

lemma initialising_reachable:
  "instance (run start acts) = NotReady \<Longrightarrow> initialising (run start acts)"
  using initialising_run[of start acts] by (simp add: start_def initialising_def)

lemma reachable_status:
  assumes "st = run start acts"
  shows "instance st = NotReady \<or> instance st = Ready \<or> (\<exists>e. instance st = Destroyed e \<and> terminal e)"
proof -
  have "invariant st" unfolding assms by (rule invariant_reachable)
  then show ?thesis by (cases "instance st") (auto simp add: invariant_def)
qed

lemma reachable_resumed_status:
  assumes "st = run start acts" and "jobs st = AddChainAfterReady t opts None # js"
  shows "instance st = Ready \<or> (\<exists>e. instance st = Destroyed e \<and> terminal e)"
proof -
  have "instance st \<noteq> NotReady"
  proof
    assume "instance st = NotReady"
    then have "initialising st" unfolding assms(1) by (rule initialising_reachable)
    with assms(2) show False by (simp add: initialising_def)
  qed
  with reachable_status[OF assms(1)] show ?thesis by blast
qed


lemma addChain_from_ready_not_string:
  assumes "\<not> is_string (chainSpec opts)"
  shows "addChain_from_ready st t opts =
     settle t (Throws (case instance st of
         Destroyed e \<Rightarrow> e
       | Ready \<Rightarrow> Error ''Chain specification must be a string''
       | _ \<Rightarrow> Error [])) st"
  using assms by (cases "instance st") (simp_all add: addChain_from_ready_def addChain_body_def)


lemma waiting_state_fields:
  "run start [CallAddChain 1 chainSpec_123] =
     start\<lparr>whenReady := Pending [AddChainWaits 1 chainSpec_123]\<rparr>"
  by (simp add: addChain_def await_ready_def start_def)

lemma resumed_state_fields:
  "instance (run start [CallAddChain 1 chainSpec_123, InstanceStarted]) = Ready"
  "jobs (run start [CallAddChain 1 chainSpec_123, InstanceStarted]) =
     [AddChainAfterReady 1 chainSpec_123 None]"
  "effects (run start [CallAddChain 1 chainSpec_123, InstanceStarted]) = []"
  "addChainResults (run start [CallAddChain 1 chainSpec_123, InstanceStarted]) = []"
  by (simp_all add: addChain_def await_ready_def start_def instance_started_def
      settle_whenReady_def schedule_def)

lemma failed_state_fields:
  "instance (run start [CallAddChain 1 chainSpec_123, InstanceFailed (Error ''init failed'')]) =
     NotReady"
  "jobs (run start [CallAddChain 1 chainSpec_123, InstanceFailed (Error ''init failed'')]) =
     [AddChainAfterReady 1 chainSpec_123 (Some (Error ''init failed''))]"
  "effects (run start [CallAddChain 1 chainSpec_123, InstanceFailed (Error ''init failed'')]) = []"
  by (simp_all add: addChain_def await_ready_def start_def settle_whenReady_def schedule_def)


text \<open>
  Claim C4, as amended.  Let \<open>st\<close> be a state that an execution from \<open>start\<close> reaches, and
  let \<open>addChain\<close> be called with a \<open>chainSpec\<close> that is not a string.  If the instance is
  ready, the call rejects at once with the error that says that the chain specification
  must be a string.  If the instance is destroyed, it rejects at once with the instance's
  terminal error.  The status is one of ready, destroyed and not ready; if it is not ready,
  the call only waits for \<open>whenReady\<close>: it joins the waiters of the pending promise, or, the
  start having failed with \<open>e\<close>, is scheduled to resume with \<open>e\<close>.  When the instance
  starts, each waiting call is scheduled to resume, and when the start fails with \<open>e\<close>, to
  resume with \<open>e\<close>.  The call that resumes with \<open>e\<close> rejects with \<open>e\<close>; the call that resumes
  after a start finds the instance ready and rejects with the error about the chain
  specification, or finds it destroyed and rejects with the terminal error.  Neither the
  call nor its resumption appends to the ledger, and to the effects they add nothing but
  the rejection: no command is issued.
\<close>

theorem addChain_chainSpec_not_string:
  assumes "st = run start acts" and "\<not> is_string (chainSpec opts)"
  shows
   "(instance st = Ready \<longrightarrow>
       addChain st t opts =
         settle t (Throws (Error ''Chain specification must be a string'')) st) \<and>
    (\<forall>e. instance st = Destroyed e \<longrightarrow>
       addChain st t opts = settle t (Throws e) st \<and> terminal e) \<and>
    (instance st = NotReady \<longrightarrow>
       (\<forall>ws. whenReady st = Pending ws \<longrightarrow>
          addChain st t opts = st\<lparr>whenReady := Pending (ws @ [AddChainWaits t opts])\<rparr>) \<and>
       (\<forall>e. whenReady st = Rejected e \<longrightarrow>
          addChain st t opts = schedule [AddChainAfterReady t opts (Some e)] st) \<and>
       whenReady st \<noteq> Fulfilled) \<and>
    (instance st = Ready \<or> instance st = NotReady \<or> (\<exists>e. instance st = Destroyed e)) \<and>
    (\<forall>ws. whenReady st = Pending ws \<and> AddChainWaits t opts \<in> set ws \<longrightarrow>
       AddChainAfterReady t opts None \<in> set (jobs (step st InstanceStarted)) \<and>
       (\<forall>e. AddChainAfterReady t opts (Some e) \<in> set (jobs (step st (InstanceFailed e))))) \<and>
    (\<forall>js e. jobs st = AddChainAfterReady t opts (Some e) # js \<longrightarrow>
       step st RunJob = settle t (Throws e) (st\<lparr>jobs := js\<rparr>)) \<and>
    (\<forall>js. jobs st = AddChainAfterReady t opts None # js \<longrightarrow>
       (instance st = Ready \<and>
        step st RunJob =
          settle t (Throws (Error ''Chain specification must be a string'')) (st\<lparr>jobs := js\<rparr>)) \<or>
       (\<exists>e. instance st = Destroyed e \<and> terminal e \<and>
          step st RunJob = settle t (Throws e) (st\<lparr>jobs := js\<rparr>))) \<and>
    addChainResults (addChain st t opts) = addChainResults st \<and>
    (effects (addChain st t opts) = effects st \<or>
     (\<exists>e. effects (addChain st t opts) = effects st @ [Settled t (Throws e)])) \<and>
    (\<forall>js r. jobs st = AddChainAfterReady t opts r # js \<longrightarrow>
       addChainResults (step st RunJob) = addChainResults st \<and>
       (\<exists>e. effects (step st RunJob) = effects st @ [Settled t (Throws e)]))"
proof (intro conjI)
  note from_ready = addChain_from_ready_not_string [OF assms(2)]
  show "instance st = Ready \<longrightarrow>
       addChain st t opts =
         settle t (Throws (Error ''Chain specification must be a string'')) st"
    by (simp add: addChain_def from_ready)
  show "\<forall>e. instance st = Destroyed e \<longrightarrow>
       addChain st t opts = settle t (Throws e) st \<and> terminal e"
    using reachable_status [OF assms(1)] by (auto simp add: addChain_def from_ready)
  show "instance st = NotReady \<longrightarrow>
       (\<forall>ws. whenReady st = Pending ws \<longrightarrow>
          addChain st t opts = st\<lparr>whenReady := Pending (ws @ [AddChainWaits t opts])\<rparr>) \<and>
       (\<forall>e. whenReady st = Rejected e \<longrightarrow>
          addChain st t opts = schedule [AddChainAfterReady t opts (Some e)] st) \<and>
       whenReady st \<noteq> Fulfilled"
  proof
    assume n: "instance st = NotReady"
    then have "initialising st" unfolding assms(1) by (rule initialising_reachable)
    with n show "(\<forall>ws. whenReady st = Pending ws \<longrightarrow>
          addChain st t opts = st\<lparr>whenReady := Pending (ws @ [AddChainWaits t opts])\<rparr>) \<and>
       (\<forall>e. whenReady st = Rejected e \<longrightarrow>
          addChain st t opts = schedule [AddChainAfterReady t opts (Some e)] st) \<and>
       whenReady st \<noteq> Fulfilled"
      by (simp add: addChain_def await_ready_def initialising_def)
  qed
  show "instance st = Ready \<or> instance st = NotReady \<or> (\<exists>e. instance st = Destroyed e)"
    using reachable_status [OF assms(1)] by blast
  show "\<forall>ws. whenReady st = Pending ws \<and> AddChainWaits t opts \<in> set ws \<longrightarrow>
       AddChainAfterReady t opts None \<in> set (jobs (step st InstanceStarted)) \<and>
       (\<forall>e. AddChainAfterReady t opts (Some e) \<in> set (jobs (step st (InstanceFailed e))))"
  proof (intro allI impI)
    fix ws
    assume a: "whenReady st = Pending ws \<and> AddChainWaits t opts \<in> set ws"
    then have "\<And>r. resume_ready r (AddChainWaits t opts) \<in> resume_ready r ` set ws"
      by blast
    then have in_jobs: "\<And>r. AddChainAfterReady t opts r \<in> set (map (resume_ready r) ws)"
      by simp
    from a in_jobs [of None]
    have 1: "AddChainAfterReady t opts None \<in> set (jobs (step st InstanceStarted))"
      by (simp add: instance_started_def settle_whenReady_def schedule_def
          split: instance_status.splits)
    have 2: "\<forall>e. AddChainAfterReady t opts (Some e) \<in> set (jobs (step st (InstanceFailed e)))"
    proof
      fix e
      from a in_jobs [of "Some e"]
      show "AddChainAfterReady t opts (Some e) \<in> set (jobs (step st (InstanceFailed e)))"
        by (simp add: settle_whenReady_def schedule_def)
    qed
    from 1 2 show "AddChainAfterReady t opts None \<in> set (jobs (step st InstanceStarted)) \<and>
       (\<forall>e. AddChainAfterReady t opts (Some e) \<in> set (jobs (step st (InstanceFailed e))))"
      by (rule conjI)
  qed
  show "\<forall>js e. jobs st = AddChainAfterReady t opts (Some e) # js \<longrightarrow>
       step st RunJob = settle t (Throws e) (st\<lparr>jobs := js\<rparr>)"
    by simp
  show "\<forall>js. jobs st = AddChainAfterReady t opts None # js \<longrightarrow>
       (instance st = Ready \<and>
        step st RunJob =
          settle t (Throws (Error ''Chain specification must be a string'')) (st\<lparr>jobs := js\<rparr>)) \<or>
       (\<exists>e. instance st = Destroyed e \<and> terminal e \<and>
          step st RunJob = settle t (Throws e) (st\<lparr>jobs := js\<rparr>))"
  proof (intro allI impI)
    fix js
    assume j: "jobs st = AddChainAfterReady t opts None # js"
    from reachable_resumed_status [OF assms(1) j]
    show "(instance st = Ready \<and>
        step st RunJob =
          settle t (Throws (Error ''Chain specification must be a string'')) (st\<lparr>jobs := js\<rparr>)) \<or>
       (\<exists>e. instance st = Destroyed e \<and> terminal e \<and>
          step st RunJob = settle t (Throws e) (st\<lparr>jobs := js\<rparr>))"
      using j by (auto simp add: from_ready)
  qed
  show "addChainResults (addChain st t opts) = addChainResults st"
    by (simp add: addChain_def from_ready await_ready_def settle_def perform_def schedule_def
        split: ready_promise.splits)
  show "effects (addChain st t opts) = effects st \<or>
     (\<exists>e. effects (addChain st t opts) = effects st @ [Settled t (Throws e)])"
    by (simp add: addChain_def from_ready await_ready_def settle_def perform_def schedule_def
        split: ready_promise.splits)
  show "\<forall>js r. jobs st = AddChainAfterReady t opts r # js \<longrightarrow>
       addChainResults (step st RunJob) = addChainResults st \<and>
       (\<exists>e. effects (step st RunJob) = effects st @ [Settled t (Throws e)])"
  proof (intro allI impI)
    fix js r
    assume "jobs st = AddChainAfterReady t opts r # js"
    then show "addChainResults (step st RunJob) = addChainResults st \<and>
       (\<exists>e. effects (step st RunJob) = effects st @ [Settled t (Throws e)])"
      by (cases r) (simp_all add: from_ready settle_def perform_def)
  qed
qed



theorem addChain_chainSpec_not_string_witness:
  "addChain ready_state 1 chainSpec_123 =
     settle 1 (Throws (Error ''Chain specification must be a string'')) ready_state \<and>
   addChain crashed_state 1 chainSpec_123 =
     settle 1 (Throws (CrashError ''boom'')) crashed_state \<and>
   addChain start 1 chainSpec_123 =
     start\<lparr>whenReady := Pending [AddChainWaits 1 chainSpec_123]\<rparr> \<and>
   effects (run start [CallAddChain 1 chainSpec_123, InstanceStarted, RunJob]) =
     [Settled 1 (Throws (Error ''Chain specification must be a string''))] \<and>
   addChainResults (run start [CallAddChain 1 chainSpec_123, InstanceStarted, RunJob]) = [] \<and>
   effects (run start
       [CallAddChain 1 chainSpec_123, InstanceFailed (Error ''init failed''), RunJob]) =
     [Settled 1 (Throws (Error ''init failed''))]"
proof -
  have n: "\<not> is_string (chainSpec chainSpec_123)"
    by (simp add: chainSpec_123_def plain_options_def)
  have r: "ready_state = run start [InstanceStarted]"
    by (simp add: ready_state_def)
  have c: "crashed_state = run start [InstanceStarted, Emit (WasmPanic ''boom'' None)]"
    by (simp add: crashed_state_def ready_state_def del: step.simps)
  have s: "start = run start []" by simp
  from addChain_chainSpec_not_string [OF r n, of 1] instance_ready_state
  have 1: "addChain ready_state 1 chainSpec_123 =
      settle 1 (Throws (Error ''Chain specification must be a string'')) ready_state"
    by blast
  from addChain_chainSpec_not_string [OF c n, of 1] instance_crashed_state
  have 2: "addChain crashed_state 1 chainSpec_123 =
      settle 1 (Throws (CrashError ''boom'')) crashed_state"
    by blast
  have "instance start = NotReady" "whenReady start = Pending []"
    by (simp_all add: start_def)
  with addChain_chainSpec_not_string [OF s n, of 1]
  have 3: "addChain start 1 chainSpec_123 =
      start\<lparr>whenReady := Pending [AddChainWaits 1 chainSpec_123]\<rparr>"
    by simp
  let ?resumed = "run start [CallAddChain 1 chainSpec_123, InstanceStarted]"
  from addChain_chainSpec_not_string [OF refl n, of "[CallAddChain 1 chainSpec_123, InstanceStarted]" 1]
    resumed_state_fields
  have "step ?resumed RunJob =
      settle 1 (Throws (Error ''Chain specification must be a string'')) (?resumed\<lparr>jobs := []\<rparr>)"
    by auto
  then have "run start ([CallAddChain 1 chainSpec_123, InstanceStarted] @ [RunJob]) =
      settle 1 (Throws (Error ''Chain specification must be a string'')) (?resumed\<lparr>jobs := []\<rparr>)"
    unfolding run_append by (simp del: step.simps)
  then have 4: "effects (run start [CallAddChain 1 chainSpec_123, InstanceStarted, RunJob]) =
       [Settled 1 (Throws (Error ''Chain specification must be a string''))] \<and>
     addChainResults (run start [CallAddChain 1 chainSpec_123, InstanceStarted, RunJob]) = []"
    using resumed_state_fields by (simp add: settle_def perform_def del: run.simps step.simps)
  let ?failed = "run start [CallAddChain 1 chainSpec_123, InstanceFailed (Error ''init failed'')]"
  from addChain_chainSpec_not_string
      [OF refl n, of "[CallAddChain 1 chainSpec_123, InstanceFailed (Error ''init failed'')]" 1]
    failed_state_fields
  have "step ?failed RunJob = settle 1 (Throws (Error ''init failed'')) (?failed\<lparr>jobs := []\<rparr>)"
    by blast
  then have "run start ([CallAddChain 1 chainSpec_123, InstanceFailed (Error ''init failed'')]
        @ [RunJob]) = settle 1 (Throws (Error ''init failed'')) (?failed\<lparr>jobs := []\<rparr>)"
    unfolding run_append by (simp del: step.simps)
  then have 5: "effects (run start
       [CallAddChain 1 chainSpec_123, InstanceFailed (Error ''init failed''), RunJob]) =
     [Settled 1 (Throws (Error ''init failed''))]"
    using failed_state_fields by (simp add: settle_def perform_def del: run.simps step.simps)
  from 1 2 3 4 5 show ?thesis by blast
qed


text \<open>The claim as it was stated fails on a destroyed instance, where the call with
  \<open>chainSpec: 123\<close> is rejected with the instance's terminal error, which the status check
  of line 459 throws before \<open>chainSpec\<close> is looked at; and it fails on the client that
  \<open>start\<close> has just returned, where the call does not reject at once but waits for the
  instance to start, and rejects with the error of the start when the start fails.\<close>

theorem addChain_chainSpec_not_string_counterexample:
  "\<not> is_string (chainSpec chainSpec_123) \<and>
   effects (addChain crashed_state 1 chainSpec_123) =
     effects crashed_state @ [Settled 1 (Throws (CrashError ''boom''))] \<and>
   CrashError ''boom'' \<noteq> Error ''Chain specification must be a string'' \<and>
   effects (addChain start 1 chainSpec_123) = [] \<and>
   whenReady (addChain start 1 chainSpec_123) = Pending [AddChainWaits 1 chainSpec_123] \<and>
   effects (run start
       [CallAddChain 1 chainSpec_123, InstanceFailed (Error ''init failed''), RunJob]) =
     [Settled 1 (Throws (Error ''init failed''))] \<and>
   Error ''init failed'' \<noteq> Error ''Chain specification must be a string''"
  by (simp add: addChain_def addChain_from_ready_def addChain_body_Destroyed
      instance_crashed_state settle_def perform_def chainSpec_123_def plain_options_def
      start_def await_ready_def settle_whenReady_def schedule_def)

subsection \<open>The crash event\<close>

text \<open>What the crash event does, in every state: the status becomes destroyed with the
  crash error; every connection of the table is reset once, in the table's order, and the
  table is emptied; every pending \<open>addChain\<close> is resumed with the failure
  \<open>Smoldot has crashed\<close>, every waiter of every chain is woken, and so is a pending
  \<open>terminate\<close>; the ledger and the registry are emptied.\<close>

lemma crash_event:
  "\<exists>st'. eventCallback st (WasmPanic m ct) = Inr st' \<and>
     instance st' = Destroyed (CrashError m) \<and> connections st' = [] \<and>
     addChainResults st' = [] \<and> chains st' = [] \<and>
     onExecutorShutdownOrWasmPanic st' = None \<and>
     effects st' = effects st @ ConsoleError (panic_text m ct)
       # map (\<lambda>(i, connec). ConnectionReset_call connec None) (connections st) \<and>
     jobs st' = jobs st
       @ map (\<lambda>(t, opts). AddChainAfterOutcome t opts (Failure ''Smoldot has crashed''))
           (addChainResults st)
       @ concat (map (\<lambda>(cid, ws). wake ws) (chains st))
       @ (case onExecutorShutdownOrWasmPanic st of
            None \<Rightarrow> []
          | Some t \<Rightarrow> [TerminateAfterShutdown t])"
  by (simp add: call_onExecutorShutdownOrWasmPanic_def wake_chains_def
      fail_addChainResults_def reset_connections_def perform_def schedule_def
      split: option.splits)

text \<open>A pending \<open>addChain\<close> resumed with that failure rejects with an \<open>AddChainError\<close>; a
  woken \<open>nextJsonRpcResponse\<close> finds its chain gone from the emptied registry and rejects
  with \<open>AlreadyDestroyedError\<close>: the check of the registry comes before the check of the
  status, so the terminal error of a crash never reaches it that way.\<close>

lemma addChain_resume_Failure:
  "run_job st (AddChainAfterOutcome t opts (Failure msg)) = settle t (Throws (AddChainError msg)) st"
  by (simp add: addChain_resume_def)

lemma nextJsonRpcResponse_chain_gone:
  "\<not> map_has (chains st) (chainId h) \<Longrightarrow>
   run_job st (NextAfterWake t h) = settle t (Throws AlreadyDestroyedError) st"
  by (simp add: nextJsonRpcResponse_def)

lemma one_chain_state_more:
  "connections one_chain_state = []"
  "onExecutorShutdownOrWasmPanic one_chain_state = None"
  "responses one_chain_state = (\<lambda>cid. [])"
  "objects one_chain_state = 1"
  by (simp_all add: one_chain_state_def ready_state_def start_def instance_started_def
      settle_whenReady_def schedule_def addChain_def addChain_from_ready_def
      addChain_body_Ready valid_options_def plain_options_def u32_max_def perform_def
      potentialRelayChainsIds_def addChain_resume_def settle_def)

lemma busy_state_fields:
  "instance busy_state = Ready"
  "connections busy_state = [(3, 30)]"
  "chains busy_state = [(7, [(2, chain_seven)])]"
  "addChainResults busy_state = [(3, plain_options (JString ''Y''))]"
  "jobs busy_state = []"
  "onExecutorShutdownOrWasmPanic busy_state = None"
  "responses busy_state = (\<lambda>cid. [])"
  "effects busy_state = effects one_chain_state @
     [InstanceAddChain ''Y'' [] [] False (Finite 4294967295) (Finite 4294967295)]"
  by (simp_all add: busy_state_def one_chain_state_fields one_chain_state_more returned_def
      chain_seven_def nextJsonRpcResponse_def peekJsonRpcResponse_def await_wake_def
      addChain_def addChain_from_ready_def addChain_body_Ready valid_options_def
      plain_options_def u32_max_def perform_def potentialRelayChainsIds_def)

text \<open>
  Claim C2, on the client \<open>busy_state\<close>: one connection (object 30), one chain with a
  \<open>nextJsonRpcResponse\<close> call (2) waiting, and one \<open>addChain\<close> call (3) pending.  The instance
  panics with the message \<open>boom\<close>, and the two continuations that the event has scheduled
  run.  The status is destroyed with the crash error, the connection has been reset once
  and the table is empty, and the pending \<open>addChain\<close> is rejected.  The waiting
  \<open>nextJsonRpcResponse\<close> settles, but with \<open>AlreadyDestroyedError\<close> and not with the crash
  error that the status holds.
\<close>

theorem crash_rejects_waiter_with_AlreadyDestroyedError:
  "instance (step busy_state (Emit (WasmPanic ''boom'' None))) = Destroyed (CrashError ''boom'') \<and>
   connections (step busy_state (Emit (WasmPanic ''boom'' None))) = [] \<and>
   jobs (step busy_state (Emit (WasmPanic ''boom'' None))) =
     [AddChainAfterOutcome 3 (plain_options (JString ''Y'')) (Failure ''Smoldot has crashed''),
      NextAfterWake 2 chain_seven] \<and>
   effects (run busy_state [Emit (WasmPanic ''boom'' None), RunJob, RunJob]) =
     effects busy_state @
       [ConsoleError (panic_text ''boom'' None), ConnectionReset_call 30 None,
        Settled 3 (Throws (AddChainError ''Smoldot has crashed'')),
        Settled 2 (Throws AlreadyDestroyedError)]"
  by (simp add: busy_state_fields call_onExecutorShutdownOrWasmPanic_def wake_chains_def
      fail_addChainResults_def reset_connections_def perform_def schedule_def wake_def
      addChain_resume_def nextJsonRpcResponse_def settle_def)

subsection \<open>The methods of a chain\<close>

lemma map_has_get: "map_has m k \<longleftrightarrow> map_get m k \<noteq> None"
  by (induction m) auto

lemma map_get_set: "map_get (map_set m k v) k' = (if k' = k then Some v else map_get m k')"
  by (induction m) auto

lemma map_has_set: "map_has (map_set m k v) k' \<longleftrightarrow> k' = k \<or> map_has m k'"
  by (simp add: map_has_get map_get_set)

lemma map_get_delete: "map_get (map_delete m k) k' = (if k' = k then None else map_get m k')"
  by (induction m) auto

lemma map_has_delete: "map_has (map_delete m k) k' \<longleftrightarrow> k' \<noteq> k \<and> map_has m k'"
  by (simp add: map_has_get map_get_delete)





lemma returns_chain_a_chain: "returns_chain h e \<Longrightarrow> returns_a_chain e"
  by (cases "(h, e)" rule: returns_chain.cases) simp_all

lemma reachable_returned_status:
  assumes "st = run start acts" and "returned st h"
  shows "instance st = Ready \<or> (\<exists>e. instance st = Destroyed e \<and> terminal e)"
proof -
  have i: "invariant st" unfolding assms(1) by (rule invariant_reachable)
  from assms(2) have "list_ex returns_a_chain (effects st)"
    by (auto simp add: returned_def list_ex_iff dest: returns_chain_a_chain)
  with i have "instance st \<noteq> NotReady" by (auto simp add: invariant_def unused_def)
  with i show ?thesis by (cases "instance st") (auto simp add: invariant_def)
qed


lemma reachable_waiters:
  assumes "st = run start acts" and "map_get (chains st) cid = Some ws"
  shows "list_all (waiter_of cid) ws"
proof -
  have "invariant st" unfolding assms(1) by (rule invariant_reachable)
  then have "keyed (chains st)" by (simp add: invariant_def)
  then show ?thesis using assms(2) by (rule keyed_map_get)
qed


lemma one_chain_state_reachable:
  "one_chain_state =
     run start [InstanceStarted, CallAddChain 1 (plain_options (JString ''X'')),
       Emit (AddChainResult (Success 7)), RunJob]"
  by (simp add: one_chain_state_def ready_state_def del: step.simps)







subsection \<open>A chain object after \<open>remove\<close>\<close>

text \<open>The three methods of a chain object test whether their chain is still there with
  \<open>state.chains.has(chainId)\<close>, on the number that \<open>addChain\<close> captured, and not with the
  \<open>WeakMap\<close> \<open>chainIds\<close>, from which \<open>remove\<close> deletes the object.  The two agree until the
  engine gives the number of a removed chain to a new chain.\<close>

lemma string_of_nat_2: "string_of_nat 2 = ''2''"
  by code_simp

lemma busy_state_chainIds: "chainIds busy_state = [0 \<mapsto> 7]"
  by (simp add: busy_state_def one_chain_state_fields one_chain_state_more returned_def
      chain_seven_def nextJsonRpcResponse_def peekJsonRpcResponse_def await_wake_def
      addChain_def addChain_from_ready_def addChain_body_Ready valid_options_def
      plain_options_def u32_max_def perform_def potentialRelayChainsIds_def)

lemma removed_state_fields:
  "instance removed_state = Ready"
  "chainIds removed_state = Map.empty"
  "chains removed_state = []"
  "addChainResults removed_state = []"
  "jobs removed_state = []"
  "objects removed_state = 1"
  "responses removed_state = (\<lambda>cid. [])"
  "connections removed_state = []"
  "onExecutorShutdownOrWasmPanic removed_state = None"
  "effects removed_state = effects one_chain_state @ [InstanceRemoveChain 7]"
  by (simp_all add: removed_state_def one_chain_state_fields one_chain_state_more returned_def
      chain_seven_def remove_def perform_def schedule_def wake_def)

lemma reused_state_fields:
  "instance reused_state = Ready"
  "chainIds reused_state = [1 \<mapsto> 7]"
  "chains reused_state = [(7, [])]"
  "addChainResults reused_state = []"
  "jobs reused_state = []"
  "responses reused_state = (\<lambda>cid. [])"
  "effects reused_state = effects removed_state @
     [InstanceAddChain ''Z'' [] [] False (Finite 4294967295) (Finite 4294967295),
      Settled 2 (ReturnsChain chain_seven_again)]"
  by (simp_all add: reused_state_def removed_state_fields addChain_def addChain_from_ready_def
      addChain_body_Ready valid_options_def plain_options_def u32_max_def perform_def
      potentialRelayChainsIds_def addChain_resume_def settle_def schedule_def
      chain_seven_again_def)

lemma returned_reused: "returned reused_state chain_seven" "returned reused_state chain_seven_again"
  by (simp_all add: returned_def reused_state_fields removed_state_fields one_chain_state_fields
      chain_seven_def chain_seven_again_def)



text \<open>\<open>sendJsonRpc\<close> on a chain object that \<open>addChain\<close> has returned, in a state that an
  execution from \<open>start\<close> reaches: on a destroyed instance it throws the terminal error; on
  a chain that is not in the registry, as right after \<open>remove\<close>, \<open>AlreadyDestroyedError\<close>;
  and when the request is handed to the engine, the status code 1 makes it throw
  \<open>QueueFullError\<close> and every other code but 0 the plain \<open>Error\<close> that names the code.\<close>

lemma sendJsonRpc_cases:
  assumes "st = run start acts" and "returned st h"
  shows
    "(\<forall>e. instance st = Destroyed e \<longrightarrow>
        sendJsonRpc st h request retVal = (Some e, st) \<and> terminal e) \<and>
     ((\<forall>e. instance st \<noteq> Destroyed e) \<and> \<not> map_has (chains st) (chainId h) \<longrightarrow>
        sendJsonRpc st h request retVal = (Some AlreadyDestroyedError, st)) \<and>
     (\<forall>st'. remove st h = Inr st' \<longrightarrow>
        sendJsonRpc st' h request retVal = (Some AlreadyDestroyedError, st')) \<and>
     ((\<forall>e. instance st \<noteq> Destroyed e) \<and> map_has (chains st) (chainId h) \<and>
        \<not> truthy (disableJsonRpc (options h)) \<longrightarrow>
        sendJsonRpc st h request retVal =
          (if retVal = 0 then None
           else if retVal = 1 then Some QueueFullError
           else Some (Error (''Internal error: unknown json_rpc_send error code: ''
                  @ string_of_nat retVal)),
           perform [InstanceRequest request (chainId h)] st))"
proof (intro conjI allI impI)
  fix e assume d: "instance st = Destroyed e"
  then show "sendJsonRpc st h request retVal = (Some e, st)"
    by (simp add: sendJsonRpc_def)
  from reachable_returned_status[OF assms] d show "terminal e" by auto
next
  assume a: "(\<forall>e. instance st \<noteq> Destroyed e) \<and> \<not> map_has (chains st) (chainId h)"
  with reachable_returned_status[OF assms] have "instance st = Ready" by auto
  with a show "sendJsonRpc st h request retVal = (Some AlreadyDestroyedError, st)"
    by (simp add: sendJsonRpc_def)
next
  fix st' assume "remove st h = Inr st'"
  then have "instance st' = Ready \<and> \<not> map_has (chains st') (chainId h)"
    by (auto simp add: remove_def perform_def schedule_def map_has_delete
        split: instance_status.splits option.splits)
  then show "sendJsonRpc st' h request retVal = (Some AlreadyDestroyedError, st')"
    by (simp add: sendJsonRpc_def)
next
  assume a: "(\<forall>e. instance st \<noteq> Destroyed e) \<and> map_has (chains st) (chainId h) \<and>
      \<not> truthy (disableJsonRpc (options h))"
  with reachable_returned_status[OF assms] have "instance st = Ready" by auto
  with a show "sendJsonRpc st h request retVal =
      (if retVal = 0 then None
       else if retVal = 1 then Some QueueFullError
       else Some (Error (''Internal error: unknown json_rpc_send error code: ''
              @ string_of_nat retVal)),
       perform [InstanceRequest request (chainId h)] st)"
    by (simp add: sendJsonRpc_def Let_def)
qed


text \<open>\<open>remove\<close> on a ready instance, for a chain that is in the registry: the object is
  deleted from \<open>chainIds\<close>, every waiter of the chain is scheduled, the chain is deleted
  from the registry and the remove-chain command is issued.  As long as the chain id is
  not in the registry, each woken waiter throws \<open>AlreadyDestroyedError\<close>, and so does a
  second \<open>remove\<close>, and the event \<open>json-rpc-responses-non-empty\<close> for that id throws and
  wakes nothing.\<close>

lemma remove_effects:
  assumes "st = run start acts" and "instance st = Ready"
    and "map_get (chains st) (chainId h) = Some ws"
  shows
    "\<exists>st'. remove st h = Inr st' \<and>
       chainIds st' = (chainIds st)(self h := None) \<and>
       jobs st' = jobs st @ wake ws \<and>
       chains st' = map_delete (chains st) (chainId h) \<and>
       \<not> map_has (chains st') (chainId h) \<and>
       effects st' = effects st
         @ (if chainIds st (self h) = None then [ConsoleAssertFailed] else [])
         @ [InstanceRemoveChain (chainId h)] \<and>
       (\<forall>st''. \<not> map_has (chains st'') (chainId h) \<longrightarrow>
          (\<forall>w \<in> set ws. run_job st'' (NextAfterWake (fst w) (snd w)) =
             settle (fst w) (Throws AlreadyDestroyedError) st'') \<and>
          (instance st'' = Ready \<longrightarrow> remove st'' h = Inl AlreadyDestroyedError) \<and>
          eventCallback st'' (JsonRpcResponsesNonEmpty (chainId h)) = Inl TypeError \<and>
          step st'' (Emit (JsonRpcResponsesNonEmpty (chainId h))) = st'')"
proof -
  let ?st' = "perform
     ((if chainIds st (self h) = None then [ConsoleAssertFailed] else [])
        @ [InstanceRemoveChain (chainId h)])
     (schedule (wake ws)
       (st\<lparr>chainIds := (chainIds st)(self h := None),
           chains := map_delete (chains st) (chainId h)\<rparr>))"
  have rm: "remove st h = Inr ?st'"
    using assms(2,3) by (simp add: remove_def)
  have w: "list_all (waiter_of (chainId h)) ws"
    using assms(1,3) by (rule reachable_waiters)
  have later: "\<forall>st''. \<not> map_has (chains st'') (chainId h) \<longrightarrow>
          (\<forall>w \<in> set ws. run_job st'' (NextAfterWake (fst w) (snd w)) =
             settle (fst w) (Throws AlreadyDestroyedError) st'') \<and>
          (instance st'' = Ready \<longrightarrow> remove st'' h = Inl AlreadyDestroyedError) \<and>
          eventCallback st'' (JsonRpcResponsesNonEmpty (chainId h)) = Inl TypeError \<and>
          step st'' (Emit (JsonRpcResponsesNonEmpty (chainId h))) = st''"
  proof (intro allI impI conjI ballI)
    fix st'' :: state and w
    assume gone: "\<not> map_has (chains st'') (chainId h)" and "w \<in> set ws"
    with w have "chainId (snd w) = chainId h"
      by (auto simp add: list_all_iff waiter_of_def)
    with gone show "run_job st'' (NextAfterWake (fst w) (snd w)) =
        settle (fst w) (Throws AlreadyDestroyedError) st''"
      by (simp add: nextJsonRpcResponse_def)
  next
    fix st'' :: state
    assume gone: "\<not> map_has (chains st'') (chainId h)" and "instance st'' = Ready"
    then show "remove st'' h = Inl AlreadyDestroyedError"
      by (simp add: remove_def map_has_get)
  next
    fix st'' :: state
    assume gone: "\<not> map_has (chains st'') (chainId h)"
    then show "eventCallback st'' (JsonRpcResponsesNonEmpty (chainId h)) = Inl TypeError"
      by (simp add: map_has_get)
    then show "step st'' (Emit (JsonRpcResponsesNonEmpty (chainId h))) = st''"
      by simp
  qed
  have "chainIds ?st' = (chainIds st)(self h := None) \<and>
       jobs ?st' = jobs st @ wake ws \<and>
       chains ?st' = map_delete (chains st) (chainId h) \<and>
       \<not> map_has (chains ?st') (chainId h) \<and>
       effects ?st' = effects st
         @ (if chainIds st (self h) = None then [ConsoleAssertFailed] else [])
         @ [InstanceRemoveChain (chainId h)]"
    by (simp add: perform_def schedule_def map_has_delete)
  with rm later show ?thesis by blast
qed


text \<open>
  Claim C8, on the client \<open>reused_state\<close>: the chain object 0 (\<open>chain_seven\<close>) was returned
  for the chain 7 and then removed, so that \<open>chainIds\<close> no longer holds it, and the engine
  has given the id 7 to the chain of the chain object 1.  Right after \<open>remove\<close>,
  \<open>sendJsonRpc\<close> on the removed object threw \<open>AlreadyDestroyedError\<close>.  Now it does not
  throw: the request is handed to the engine for chain 7, the chain of the other object.
  The rest of the claim holds: after a crash of this client the call throws the crash
  error, and on the client with one chain the status code 1 gives \<open>QueueFullError\<close> and
  the code 2 the plain \<open>Error\<close> that names it.
\<close>

theorem sendJsonRpc_on_removed_handle:
  "returned reused_state chain_seven \<and>
   chainIds reused_state (self chain_seven) = None \<and>
   chainIds reused_state (self chain_seven_again) = Some 7 \<and>
   sendJsonRpc removed_state chain_seven ''ping'' 0 = (Some AlreadyDestroyedError, removed_state) \<and>
   sendJsonRpc reused_state chain_seven ''ping'' 0 =
     (None, perform [InstanceRequest ''ping'' 7] reused_state) \<and>
   effects (step reused_state (CallSendJsonRpc chain_seven ''ping'' 0)) =
     effects reused_state @ [InstanceRequest ''ping'' 7] \<and>
   fst (sendJsonRpc (step reused_state (Emit (WasmPanic ''boom'' None))) chain_seven ''ping'' 0) =
     Some (CrashError ''boom'') \<and>
   fst (sendJsonRpc one_chain_state chain_seven ''ping'' 1) = Some QueueFullError \<and>
   fst (sendJsonRpc one_chain_state chain_seven ''ping'' 2) =
     Some (Error ''Internal error: unknown json_rpc_send error code: 2'')"
proof -
  have a: "chainIds reused_state (self chain_seven) = None \<and>
      chainIds reused_state (self chain_seven_again) = Some 7"
    by (simp add: reused_state_fields chain_seven_def chain_seven_again_def)
  have b: "sendJsonRpc removed_state chain_seven ''ping'' 0 =
      (Some AlreadyDestroyedError, removed_state)"
    by (simp add: sendJsonRpc_def removed_state_fields)
  have c: "sendJsonRpc reused_state chain_seven ''ping'' 0 =
      (None, perform [InstanceRequest ''ping'' 7] reused_state)"
    by (simp add: sendJsonRpc_def reused_state_fields chain_seven_def plain_options_def)
  have d: "effects (step reused_state (CallSendJsonRpc chain_seven ''ping'' 0)) =
      effects reused_state @ [InstanceRequest ''ping'' 7]"
    by (simp add: returned_reused c perform_def)
  have e: "fst (sendJsonRpc (step reused_state (Emit (WasmPanic ''boom'' None))) chain_seven
      ''ping'' 0) = Some (CrashError ''boom'')"
    by (simp add: sendJsonRpc_def step_crash del: step.simps)
  have f: "fst (sendJsonRpc one_chain_state chain_seven ''ping'' 1) = Some QueueFullError \<and>
      fst (sendJsonRpc one_chain_state chain_seven ''ping'' 2) =
        Some (Error ''Internal error: unknown json_rpc_send error code: 2'')"
    by (simp add: sendJsonRpc_def one_chain_state_fields chain_seven_def plain_options_def
        string_of_nat_2)
  from returned_reused(1) a b c d e f show ?thesis by blast
qed


text \<open>
  Claim C9, on the same clients.  The first \<open>remove\<close> does what the claim says: on
  \<open>one_chain_state\<close> it gives \<open>removed_state\<close>, and on \<open>busy_state\<close> it issues the
  remove-chain command and wakes the waiting call, which throws
  \<open>AlreadyDestroyedError\<close>; right after it a second \<open>remove\<close> throws
  \<open>AlreadyDestroyedError\<close> and the event \<open>json-rpc-responses-non-empty\<close> for chain 7 finds
  no chain.  On \<open>reused_state\<close>, where the engine has given the id 7 to the chain of the
  chain object 1, the second \<open>remove\<close> on the removed object 0 does not throw: the
  assertion of line 574 fails, a remove-chain command is issued for chain 7, and the
  registry loses the chain of the object 1, on which \<open>sendJsonRpc\<close> now throws
  \<open>AlreadyDestroyedError\<close> although \<open>chainIds\<close> still holds it.  And a
  \<open>nextJsonRpcResponse\<close> call made on the removed object on \<open>reused_state\<close> is woken by
  the event for chain 7 and returns a response of that chain.
\<close>

theorem second_remove_on_removed_handle:
  "remove one_chain_state chain_seven = Inr removed_state \<and>
   effects (run busy_state [CallRemove chain_seven, RunJob]) =
     effects busy_state @ [InstanceRemoveChain 7, Settled 2 (Throws AlreadyDestroyedError)] \<and>
   remove removed_state chain_seven = Inl AlreadyDestroyedError \<and>
   eventCallback removed_state (JsonRpcResponsesNonEmpty 7) = Inl TypeError \<and>
   returned reused_state chain_seven \<and>
   chainIds reused_state (self chain_seven) = None \<and>
   chainIds reused_state (self chain_seven_again) = Some 7 \<and>
   remove reused_state chain_seven = Inr (step reused_state (CallRemove chain_seven)) \<and>
   effects (step reused_state (CallRemove chain_seven)) =
     effects reused_state @ [ConsoleAssertFailed, InstanceRemoveChain 7] \<and>
   chains (step reused_state (CallRemove chain_seven)) = [] \<and>
   chainIds (step reused_state (CallRemove chain_seven)) (self chain_seven_again) = Some 7 \<and>
   fst (sendJsonRpc (step reused_state (CallRemove chain_seven)) chain_seven_again ''ping'' 0) =
     Some AlreadyDestroyedError \<and>
   effects (run reused_state
       [CallNextJsonRpcResponse 5 chain_seven, QueueResponse 7 ''pong'',
        Emit (JsonRpcResponsesNonEmpty 7), RunJob]) =
     effects reused_state @ [Settled 5 (ReturnsMessage ''pong'')]"
proof -
  have a: "remove one_chain_state chain_seven = Inr removed_state"
    by (simp add: removed_state_def returned_def one_chain_state_fields chain_seven_def remove_def)
  have b: "effects (run busy_state [CallRemove chain_seven, RunJob]) =
     effects busy_state @ [InstanceRemoveChain 7, Settled 2 (Throws AlreadyDestroyedError)]"
    by (simp add: busy_state_fields returned_def one_chain_state_fields chain_seven_def
        remove_def perform_def schedule_def wake_def nextJsonRpcResponse_def settle_def
        busy_state_chainIds)
  have c: "remove removed_state chain_seven = Inl AlreadyDestroyedError \<and>
      eventCallback removed_state (JsonRpcResponsesNonEmpty 7) = Inl TypeError"
    by (simp add: removed_state_fields remove_def chain_seven_def)
  have i: "chainIds reused_state (self chain_seven) = None \<and>
      chainIds reused_state (self chain_seven_again) = Some 7"
    by (simp add: reused_state_fields chain_seven_def chain_seven_again_def)
  have k: "step reused_state (CallRemove chain_seven) =
      keep reused_state (remove reused_state chain_seven)"
    by (simp add: returned_reused)
  obtain st' where rm: "remove reused_state chain_seven = Inr st'"
    and st': "effects st' = effects reused_state @ [ConsoleAssertFailed, InstanceRemoveChain 7]"
      "chains st' = []" "chainIds st' 1 = Some 7" "instance st' = Ready"
    by (simp add: reused_state_fields remove_def chain_seven_def perform_def schedule_def)
  have d: "remove reused_state chain_seven = Inr (step reused_state (CallRemove chain_seven))"
    unfolding k by (simp add: rm)
  have s: "step reused_state (CallRemove chain_seven) = st'"
    unfolding k by (simp add: rm)
  have e: "effects (step reused_state (CallRemove chain_seven)) =
       effects reused_state @ [ConsoleAssertFailed, InstanceRemoveChain 7] \<and>
     chains (step reused_state (CallRemove chain_seven)) = [] \<and>
     chainIds (step reused_state (CallRemove chain_seven)) (self chain_seven_again) = Some 7 \<and>
     fst (sendJsonRpc (step reused_state (CallRemove chain_seven)) chain_seven_again ''ping'' 0) =
       Some AlreadyDestroyedError"
    unfolding s using st' by (simp add: chain_seven_again_def sendJsonRpc_def)
  have f: "effects (run reused_state
       [CallNextJsonRpcResponse 5 chain_seven, QueueResponse 7 ''pong'',
        Emit (JsonRpcResponsesNonEmpty 7), RunJob]) =
     effects reused_state @ [Settled 5 (ReturnsMessage ''pong'')]"
    by (simp add: returned_reused)
       (simp add: reused_state_fields chain_seven_def plain_options_def
        nextJsonRpcResponse_def peekJsonRpcResponse_def await_wake_def schedule_def wake_def
        settle_def perform_def)
  from returned_reused(1) a b c i d e f show ?thesis by blast
qed

end
